theory Spec2Isabelle
  imports Complex_Main "HOL-Library.Log_Nat"
begin

section \<open>Data model\<close>

text \<open>
  The service of \<^verbatim>\<open>app.js\<close> is an Express application over a relational store reached
  through Prisma. Identifiers are the strings of \<^verbatim>\<open>req.params\<close> and of the request
  bodies. \<open>Int\<close> columns and quantities are \<^typ>\<open>int\<close>; prices, which are \<open>Float\<close> columns
  and JavaScript numbers, are binary64 floating-point numbers.
\<close>

type_synonym ident = string

subsection \<open>JavaScript numbers\<close>

text \<open>
  A number is a double: \<open>Finite m e\<close> is \<open>m * 2 ^ e\<close> with \<open>\<bar>m\<bar> < 2 ^ 53\<close> and
  \<open>- 1074 \<le> e \<le> 971\<close>, written with the least exponent it admits (zero is \<open>Finite 0 0\<close>);
  \<open>Infinity neg\<close> is the infinity of that sign. The two zeros, which no arithmetic used here
  and no JSON text tells apart, are one value.
\<close>

datatype number = Finite int int | Infinity bool | NaN

text \<open>The double nearest to \<open>m * 2 ^ e\<close>, ties going to the even significand: the rounding
  of every arithmetic operation.\<close>

definition round_to_double :: "int \<Rightarrow> int \<Rightarrow> number" where
  "round_to_double m e =
     (if m = 0 then Finite 0 0
      else
        let e' = max (bitlen \<bar>m\<bar> + e - 53) (- 1074);
            q = (if e' \<le> e then m * 2 ^ nat (e - e')
                 else
                   let d = 2 ^ nat (e' - e); f = m div d; r = m mod d
                   in if d < 2 * r \<or> (2 * r = d \<and> odd f) then f + 1 else f)
        in if q = 0 then Finite 0 0
           else if \<bar>q\<bar> = 2 ^ 53 then
             (if 971 < e' + 1 then Infinity (q < 0) else Finite (q div 2) (e' + 1))
           else if 971 < e' then Infinity (q < 0)
           else Finite q e')"

text \<open>The operators \<^verbatim>\<open>+\<close> and \<^verbatim>\<open>*\<close> on numbers.\<close>

fun js_add :: "number \<Rightarrow> number \<Rightarrow> number" where
  "js_add NaN y = NaN"
| "js_add x NaN = NaN"
| "js_add (Infinity a) (Infinity b) = (if a = b then Infinity a else NaN)"
| "js_add (Infinity a) (Finite m e) = Infinity a"
| "js_add (Finite m e) (Infinity b) = Infinity b"
| "js_add (Finite m1 e1) (Finite m2 e2) =
     (let e = min e1 e2
      in round_to_double (m1 * 2 ^ nat (e1 - e) + m2 * 2 ^ nat (e2 - e)) e)"

fun js_mul :: "number \<Rightarrow> number \<Rightarrow> number" where
  "js_mul NaN y = NaN"
| "js_mul x NaN = NaN"
| "js_mul (Infinity a) (Infinity b) = Infinity (a \<noteq> b)"
| "js_mul (Infinity a) (Finite m e) = (if m = 0 then NaN else Infinity (a \<noteq> (m < 0)))"
| "js_mul (Finite m e) (Infinity b) = (if m = 0 then NaN else Infinity ((m < 0) \<noteq> b))"
| "js_mul (Finite m1 e1) (Finite m2 e2) = round_to_double (m1 * m2) (e1 + e2)"

text \<open>The number that an integer (an \<open>Int\<close> column, an integer literal) is read as.\<close>

definition js_of_int :: "int \<Rightarrow> number" where
  "js_of_int n = round_to_double n 0"

definition negative :: "number \<Rightarrow> bool" where
  "negative x = (case x of Finite m e \<Rightarrow> m < 0 | Infinity neg \<Rightarrow> neg | NaN \<Rightarrow> False)"

subsection \<open>Rows and bodies\<close>

record userPreference =
  receiveEmail :: bool

record user =
  userPreference :: userPreference

record product =
  price :: number
  stock :: int

text \<open>An element of \<^verbatim>\<open>req.body.orderItems\<close>, and the row the nested create stores for it.\<close>

record orderItemInput =
  productId :: ident
  unitPrice :: number
  quantity :: int

record orderItem = orderItemInput +
  orderId :: ident

record order =
  order_userId :: ident

text \<open>The body of \<^verbatim>\<open>POST /orders\<close>: \<^verbatim>\<open>const { orderItems, ...orderFields } = req.body\<close>.\<close>

record createOrderBody =
  userId :: ident
  orderItems :: "orderItemInput list"

text \<open>The body of \<^verbatim>\<open>PATCH /products/:id\<close>: the fields present are written.\<close>

record patchProductBody =
  patch_price :: "number option"
  patch_stock :: "int option"

text \<open>An order fetched with \<^verbatim>\<open>include: { orderItems: true }\<close>; \<open>total\<close> is the property
  that \<^verbatim>\<open>GET /orders/:id\<close> assigns to the fetched object.\<close>

record orderWithItems =
  id :: ident
  owner :: ident
  items :: "orderItem list"
  total :: "number option"

text \<open>The tables. A table with a primary key is a map from the key to the row.\<close>

record db =
  users :: "ident \<rightharpoonup> user"
  products :: "ident \<rightharpoonup> product"
  orders :: "ident \<rightharpoonup> order"
  orderItemRows :: "orderItem list"

section \<open>Errors and responses\<close>

text \<open>
  The exceptions that \<open>asyncHandler\<close> tells apart: superstruct's \<open>StructError\<close>, Prisma's
  validation error, Prisma's known request error with its code, and any other \<open>Error\<close>
  with its message.
\<close>

datatype error =
    StructError string
  | PrismaClientValidationError string
  | PrismaClientKnownRequestError string string
  | Error string

datatype 'a body = Json 'a | Message string | StatusText string | Empty

record 'a response =
  status :: nat
  body :: "'a body"

text \<open>The \<^verbatim>\<open>catch\<close> block of \<open>asyncHandler\<close>.\<close>

fun catch_response :: "error \<Rightarrow> 'a response" where
  "catch_response (StructError m) = \<lparr>status = 400, body = Message m\<rparr>"
| "catch_response (PrismaClientValidationError m) = \<lparr>status = 400, body = Message m\<rparr>"
| "catch_response (PrismaClientKnownRequestError code m) =
     (if code = ''P2025'' then \<lparr>status = 404, body = StatusText ''Not Found''\<rparr>
      else \<lparr>status = 500, body = Message m\<rparr>)"
| "catch_response (Error m) = \<lparr>status = 500, body = Message m\<rparr>"

definition asyncHandler ::
  "('req \<Rightarrow> db \<Rightarrow> (error + 'a response) \<times> db) \<Rightarrow> 'req \<Rightarrow> db \<Rightarrow> 'a response \<times> db" where
  "asyncHandler handler req s =
     (case handler req s of
        (Inl e, s') \<Rightarrow> (catch_response e, s')
      | (Inr res, s') \<Rightarrow> (res, s'))"

text \<open>\<^verbatim>\<open>res.send(x)\<close>: status 200; a \<^verbatim>\<open>null\<close> is sent as an empty body.\<close>

definition send :: "'a option \<Rightarrow> 'a response" where
  "send x = (case x of None \<Rightarrow> \<lparr>status = 200, body = Empty\<rparr>
             | Some v \<Rightarrow> \<lparr>status = 200, body = Json v\<rparr>)"

text \<open>The status classes of HTTP.\<close>

definition client_error :: "'a response \<Rightarrow> bool" where
  "client_error res = (400 \<le> status res \<and> status res < 500)"

definition server_error :: "'a response \<Rightarrow> bool" where
  "server_error res = (500 \<le> status res \<and> status res < 600)"

text \<open>\<^verbatim>\<open>assert(req.body, Struct)\<close>: a struct answers with the message of its failure.\<close>

type_synonym 'a struct = "'a \<Rightarrow> string option"

definition assert :: "'a \<Rightarrow> 'a struct \<Rightarrow> error + unit" where
  "assert b struct = (case struct b of Some m \<Rightarrow> Inl (StructError m) | None \<Rightarrow> Inr ())"

section \<open>The Prisma queries the handlers use\<close>

definition record_not_found :: error where
  "record_not_found = PrismaClientKnownRequestError ''P2025'' ''Record not found''"

definition findUnique :: "(ident \<rightharpoonup> 'r) \<Rightarrow> ident \<Rightarrow> 'r option" where
  "findUnique table i = table i"

definition findUniqueOrThrow :: "(ident \<rightharpoonup> 'r) \<Rightarrow> ident \<Rightarrow> error + 'r" where
  "findUniqueOrThrow table i =
     (case table i of None \<Rightarrow> Inl record_not_found | Some r \<Rightarrow> Inr r)"

text \<open>\<^verbatim>\<open>prisma.order.findUniqueOrThrow({ where: { id }, include: { orderItems: true } })\<close>.\<close>

definition order_findUniqueOrThrow :: "ident \<Rightarrow> db \<Rightarrow> error + orderWithItems" where
  "order_findUniqueOrThrow i s =
     (case findUniqueOrThrow (orders s) i of
        Inl e \<Rightarrow> Inl e
      | Inr row \<Rightarrow>
          Inr \<lparr>id = i, owner = order_userId row,
               items = filter (\<lambda>oi. orderId oi = i) (orderItemRows s), total = None\<rparr>)"

text \<open>\<^verbatim>\<open>prisma.product.findMany({ where: { id: { in: productIds } } })\<close>: each matching
  row once, with its key. The query gives no \<^verbatim>\<open>orderBy\<close>; the rows are listed here in the
  order of the identifiers, and the only reader, \<^verbatim>\<open>every\<close>, does not depend on it.\<close>

definition product_findMany :: "ident list \<Rightarrow> db \<Rightarrow> (ident \<times> product) list" where
  "product_findMany ids s =
     List.map_filter (\<lambda>i. map_option (Pair i) (products s i)) (remdups ids)"

text \<open>\<^verbatim>\<open>prisma.product.update({ where: { id }, data })\<close> with the fields of a patch.\<close>

definition apply_patch :: "patchProductBody \<Rightarrow> product \<Rightarrow> product" where
  "apply_patch b p =
     p\<lparr>price := (case patch_price b of None \<Rightarrow> price p | Some v \<Rightarrow> v),
       stock := (case patch_stock b of None \<Rightarrow> stock p | Some v \<Rightarrow> v)\<rparr>"

definition product_update :: "ident \<Rightarrow> (product \<Rightarrow> product) \<Rightarrow> db \<Rightarrow> error + (product \<times> db)" where
  "product_update i f s =
     (case products s i of
        None \<Rightarrow> Inl record_not_found
      | Some p \<Rightarrow> Inr (f p, s\<lparr>products := (products s)(i \<mapsto> f p)\<rparr>))"

section \<open>Read handlers\<close>

text \<open>\<^verbatim>\<open>GET /users/:id\<close>.\<close>

definition get_user :: "ident \<Rightarrow> db \<Rightarrow> (error + user response) \<times> db" where
  "get_user i s =
     (case findUniqueOrThrow (users s) i of
        Inl e \<Rightarrow> (Inl e, s)
      | Inr u \<Rightarrow> (Inr (send (Some u)), s))"

text \<open>\<^verbatim>\<open>GET /products/:id\<close>.\<close>

definition get_product :: "ident \<Rightarrow> db \<Rightarrow> (error + product response) \<times> db" where
  "get_product i s = (Inr (send (findUnique (products s) i)), s)"

text \<open>\<^verbatim>\<open>PATCH /products/:id\<close>.\<close>

definition patch_product ::
  "patchProductBody struct \<Rightarrow> ident \<times> patchProductBody \<Rightarrow> db \<Rightarrow> (error + product response) \<times> db" where
  "patch_product PatchProduct req s =
     (case assert (snd req) PatchProduct of
        Inl e \<Rightarrow> (Inl e, s)
      | Inr _ \<Rightarrow>
          (case product_update (fst req) (apply_patch (snd req)) s of
             Inl e \<Rightarrow> (Inl e, s)
           | Inr (p, s') \<Rightarrow> (Inr (send (Some p)), s')))"

text \<open>\<^verbatim>\<open>GET /orders/:id\<close>: the \<^verbatim>\<open>reduce\<close> over the fetched items, from 0, in the
  arithmetic of numbers.\<close>

definition order_total :: "orderItem list \<Rightarrow> number" where
  "order_total ois =
     foldl (\<lambda>acc oi. js_add acc (js_mul (unitPrice oi) (js_of_int (quantity oi)))) (Finite 0 0) ois"

definition get_order :: "ident \<Rightarrow> db \<Rightarrow> (error + orderWithItems response) \<times> db" where
  "get_order i s =
     (case order_findUniqueOrThrow i s of
        Inl e \<Rightarrow> (Inl e, s)
      | Inr ord \<Rightarrow> (Inr (send (Some (ord\<lparr>total := Some (order_total (items ord))\<rparr>))), s))"

section \<open>Order placement\<close>

text \<open>
  The queries that \<^verbatim>\<open>POST /orders\<close> hands to \<^verbatim>\<open>prisma.$transaction\<close>: a query is built
  first and runs only inside the transaction. \<open>Order_create\<close> carries the identifier the
  store generates for the new order; \<open>Product_update_decrement\<close> is
  \<^verbatim>\<open>prisma.product.update({ where: { id }, data: { stock: { decrement } } })\<close>.
\<close>

datatype query =
    Order_create ident ident "orderItemInput list"
  | Product_update_decrement ident int

datatype result = OrderResult orderWithItems | ProductResult ident product

definition attach :: "ident \<Rightarrow> orderItemInput \<Rightarrow> orderItem" where
  "attach oid oi =
     \<lparr>productId = productId oi, unitPrice = unitPrice oi, quantity = quantity oi, orderId = oid\<rparr>"

definition unique_violation :: error where
  "unique_violation = PrismaClientKnownRequestError ''P2002'' ''Unique constraint failed''"

fun exec :: "query \<Rightarrow> db \<Rightarrow> error + (result \<times> db)" where
  "exec (Order_create oid uid ois) s =
     (if orders s oid \<noteq> None then Inl unique_violation
      else
        let s' = s\<lparr>orders := (orders s)(oid \<mapsto> \<lparr>order_userId = uid\<rparr>),
                   orderItemRows := orderItemRows s @ map (attach oid) ois\<rparr>
        in Inr (OrderResult \<lparr>id = oid, owner = uid,
                  items = filter (\<lambda>oi. orderId oi = oid) (orderItemRows s'), total = None\<rparr>, s'))"
| "exec (Product_update_decrement pid q) s =
     (case product_update pid (\<lambda>p. p\<lparr>stock := stock p - q\<rparr>) s of
        Inl e \<Rightarrow> Inl e
      | Inr (p, s') \<Rightarrow> Inr (ProductResult pid p, s'))"

text \<open>
  \<^verbatim>\<open>prisma.$transaction([...])\<close> runs the queries in order on a working copy of the
  store and commits at the end; the first error abandons the copy. The store can fail a
  statement on its own account (a constraint declared in the schema, a lost
  connection, a deadline): \<open>fault k\<close> is the error, if any, that it raises
  at statement \<open>k\<close>, the commit being the statement after the last query.
\<close>

type_synonym fault = "nat \<Rightarrow> error option"

fun run_queries :: "fault \<Rightarrow> nat \<Rightarrow> query list \<Rightarrow> db \<Rightarrow> error + (result list \<times> db)" where
  "run_queries fault k [] s = (case fault k of Some e \<Rightarrow> Inl e | None \<Rightarrow> Inr ([], s))"
| "run_queries fault k (q # qs) s =
     (case fault k of
        Some e \<Rightarrow> Inl e
      | None \<Rightarrow>
          (case exec q s of
             Inl e \<Rightarrow> Inl e
           | Inr (r, s') \<Rightarrow>
               (case run_queries fault (Suc k) qs s' of
                  Inl e \<Rightarrow> Inl e
                | Inr (rs, s'') \<Rightarrow> Inr (r # rs, s''))))"

definition transaction :: "fault \<Rightarrow> query list \<Rightarrow> db \<Rightarrow> (error + result list) \<times> db" where
  "transaction fault qs s =
     (case run_queries fault 0 qs s of
        Inl e \<Rightarrow> (Inl e, s)
      | Inr (rs, s') \<Rightarrow> (Inr rs, s'))"

definition no_fault :: fault where
  "no_fault = (\<lambda>k. None)"

text \<open>The helper of the handler: \<^verbatim>\<open>orderItems.find(...)\<close> gives the first element with
  that product, and reading \<^verbatim>\<open>.quantity\<close> of \<^verbatim>\<open>undefined\<close> throws a TypeError.\<close>

definition getQuantity :: "orderItemInput list \<Rightarrow> ident \<Rightarrow> error + int" where
  "getQuantity ois pid =
     (case find (\<lambda>oi. productId oi = pid) ois of
        None \<Rightarrow> Inl (Error ''Cannot read properties of undefined (reading quantity)'')
      | Some oi \<Rightarrow> Inr (quantity oi))"

text \<open>\<^verbatim>\<open>products.every((product) => stock >= getQuantity(id))\<close>, which stops at the first
  product that fails.\<close>

fun isSufficientStock :: "orderItemInput list \<Rightarrow> (ident \<times> product) list \<Rightarrow> error + bool" where
  "isSufficientStock ois [] = Inr True"
| "isSufficientStock ois ((i, p) # ps) =
     (case getQuantity ois i of
        Inl e \<Rightarrow> Inl e
      | Inr q \<Rightarrow> if stock p \<ge> q then isSufficientStock ois ps else Inr False)"

text \<open>\<^verbatim>\<open>productIds.map((productId) => prisma.product.update(...))\<close>.\<close>

fun queryPromises :: "orderItemInput list \<Rightarrow> ident list \<Rightarrow> error + query list" where
  "queryPromises ois [] = Inr []"
| "queryPromises ois (pid # pids) =
     (case getQuantity ois pid of
        Inl e \<Rightarrow> Inl e
      | Inr q \<Rightarrow>
          (case queryPromises ois pids of
             Inl e \<Rightarrow> Inl e
           | Inr qs \<Rightarrow> Inr (Product_update_decrement pid q # qs)))"

text \<open>\<^verbatim>\<open>res.status(201).send(order)\<close>, \<open>order\<close> being the first result of the transaction.\<close>

definition created :: "'a list \<Rightarrow> 'a response" where
  "created rs = (send (case rs of [] \<Rightarrow> None | r # _ \<Rightarrow> Some r))\<lparr>status := 201\<rparr>"

text \<open>
  The handler of \<^verbatim>\<open>POST /orders\<close> waits on the store twice. Up to the first
  \<^verbatim>\<open>await\<close> it validates the body and reads the products; after it, it checks the
  stock it has read, builds the queries and runs the transaction on the store as it then is.
\<close>

definition post_orders_read ::
  "createOrderBody struct \<Rightarrow> createOrderBody \<Rightarrow> db \<Rightarrow> error + (ident \<times> product) list" where
  "post_orders_read CreateOrder b s =
     (case assert b CreateOrder of
        Inl e \<Rightarrow> Inl e
      | Inr _ \<Rightarrow> Inr (product_findMany (map productId (orderItems b)) s))"

definition post_orders_commit ::
  "ident \<Rightarrow> fault \<Rightarrow> createOrderBody \<Rightarrow> (ident \<times> product) list \<Rightarrow> db
     \<Rightarrow> (error + result response) \<times> db" where
  "post_orders_commit uuid fault b ps s =
     (case isSufficientStock (orderItems b) ps of
        Inl e \<Rightarrow> (Inl e, s)
      | Inr sufficient \<Rightarrow>
          if \<not> sufficient then (Inl (Error ''Insufficient Stock''), s)
          else
            (case queryPromises (orderItems b) (map productId (orderItems b)) of
               Inl e \<Rightarrow> (Inl e, s)
             | Inr qs \<Rightarrow>
                 (case transaction fault (Order_create uuid (userId b) (orderItems b) # qs) s of
                    (Inl e, s') \<Rightarrow> (Inl e, s')
                  | (Inr rs, s') \<Rightarrow> (Inr (created rs), s'))))"

definition post_orders ::
  "createOrderBody struct \<Rightarrow> ident \<Rightarrow> fault \<Rightarrow> createOrderBody \<Rightarrow> db
     \<Rightarrow> (error + result response) \<times> db" where
  "post_orders CreateOrder uuid fault b s =
     (case post_orders_read CreateOrder b s of
        Inl e \<Rightarrow> (Inl e, s)
      | Inr ps \<Rightarrow> post_orders_commit uuid fault b ps s)"

section \<open>The routes\<close>

definition GET_users_id :: "ident \<Rightarrow> db \<Rightarrow> user response \<times> db" where
  "GET_users_id = asyncHandler get_user"

definition GET_products_id :: "ident \<Rightarrow> db \<Rightarrow> product response \<times> db" where
  "GET_products_id = asyncHandler get_product"

definition PATCH_products_id ::
  "patchProductBody struct \<Rightarrow> ident \<times> patchProductBody \<Rightarrow> db \<Rightarrow> product response \<times> db" where
  "PATCH_products_id PatchProduct = asyncHandler (patch_product PatchProduct)"

definition GET_orders_id :: "ident \<Rightarrow> db \<Rightarrow> orderWithItems response \<times> db" where
  "GET_orders_id = asyncHandler get_order"

definition POST_orders ::
  "createOrderBody struct \<Rightarrow> ident \<Rightarrow> fault \<Rightarrow> createOrderBody \<Rightarrow> db \<Rightarrow> result response \<times> db" where
  "POST_orders CreateOrder uuid fault = asyncHandler (post_orders CreateOrder uuid fault)"

section \<open>Notions the statements use\<close>

text \<open>The quantity of the first line item that names a product (0 when none does).\<close>

definition first_quantity :: "orderItemInput list \<Rightarrow> ident \<Rightarrow> int" where
  "first_quantity ois pid =
     (case find (\<lambda>oi. productId oi = pid) ois of None \<Rightarrow> 0 | Some oi \<Rightarrow> quantity oi)"

text \<open>A table of products after one decrement by \<open>g i\<close> for every occurrence of \<open>i\<close> in a list.\<close>

definition decrement_all :: "(ident \<Rightarrow> int) \<Rightarrow> ident list \<Rightarrow> (ident \<rightharpoonup> product) \<Rightarrow> (ident \<rightharpoonup> product)" where
  "decrement_all g pids m =
     (\<lambda>i. map_option (\<lambda>r. r\<lparr>stock := stock r - g i * int (count_list pids i)\<rparr>) (m i))"

text \<open>The stock updates of a placement, one for every line item, in order.\<close>

definition decrements :: "orderItemInput list \<Rightarrow> ident list \<Rightarrow> query list" where
  "decrements ois pids = map (\<lambda>pid. Product_update_decrement pid (first_quantity ois pid)) pids"

text \<open>The admission check, said over the request and the store: every product that is found
  has at least the stock that the first line item naming it asks for.\<close>

definition sufficient :: "createOrderBody \<Rightarrow> db \<Rightarrow> bool" where
  "sufficient b s =
     (\<forall>oi \<in> set (orderItems b). \<forall>p. products s (productId oi) = Some p
         \<longrightarrow> first_quantity (orderItems b) (productId oi) \<le> stock p)"

text \<open>The store after a placement that committed.\<close>

definition committed :: "ident \<Rightarrow> createOrderBody \<Rightarrow> db \<Rightarrow> db" where
  "committed uuid b s =
     s\<lparr>orders := (orders s)(uuid \<mapsto> \<lparr>order_userId = userId b\<rparr>),
       orderItemRows := orderItemRows s @ map (attach uuid) (orderItems b),
       products := decrement_all (first_quantity (orderItems b)) (map productId (orderItems b))
                     (products s)\<rparr>"

text \<open>The order that a committed placement answers with.\<close>

definition created_order :: "ident \<Rightarrow> createOrderBody \<Rightarrow> db \<Rightarrow> orderWithItems" where
  "created_order uuid b s =
     \<lparr>id = uuid, owner = userId b,
      items = filter (\<lambda>oi. orderId oi = uuid) (orderItemRows s @ map (attach uuid) (orderItems b)),
      total = None\<rparr>"

text \<open>The queries of a placement, in the order of the transaction.\<close>

definition placement :: "ident \<Rightarrow> createOrderBody \<Rightarrow> query list" where
  "placement uuid b =
     Order_create uuid (userId b) (orderItems b)
       # decrements (orderItems b) (map productId (orderItems b))"

text \<open>The sum of a list of numbers, from 0 and from the left.\<close>

definition js_sum :: "number list \<Rightarrow> number" where
  "js_sum xs = foldl js_add (Finite 0 0) xs"

text \<open>A line item of a request, of an integer unit price.\<close>

definition line :: "ident \<Rightarrow> int \<Rightarrow> int \<Rightarrow> orderItemInput" where
  "line pid u q = \<lparr>productId = pid, unitPrice = js_of_int u, quantity = q\<rparr>"

text \<open>Modelled from the spec: \<^verbatim>\<open>structs.js\<close>, where the struct \<open>CreateOrder\<close> is declared, is
  missing. The handlers take the struct as a parameter; this one, for the examples, asks what
  the design asks of a body: a non-empty list of line items, each of a positive quantity.\<close>

definition CreateOrder_sample :: "createOrderBody struct" where
  "CreateOrder_sample b =
     (if orderItems b = [] then Some ''orderItems: expected a nonempty array''
      else if list_ex (\<lambda>oi. quantity oi < 1) (orderItems b)
        then Some ''quantity: expected a positive integer''
      else None)"

text \<open>A store for the examples: one user, two products, no order.\<close>

definition shop :: db where
  "shop = \<lparr>users = [''u1'' \<mapsto> \<lparr>userPreference = \<lparr>receiveEmail = True\<rparr>\<rparr>],
           products = [''p1'' \<mapsto> \<lparr>price = js_of_int 10, stock = 5\<rparr>,
                       ''p2'' \<mapsto> \<lparr>price = js_of_int 5, stock = 1\<rparr>],
           orders = Map.empty, orderItemRows = []\<rparr>"

text \<open>The same store holding one order of two line items.\<close>

definition shop_with_order :: db where
  "shop_with_order =
     shop\<lparr>orders := [''o1'' \<mapsto> \<lparr>order_userId = ''u1''\<rparr>],
          orderItemRows := [attach ''o1'' (line ''p1'' 10 2), attach ''o1'' (line ''p2'' 5 1)]\<rparr>"

text \<open>A store holding one order of three items at unit price 0.1, the double
  \<open>7205759403792794 * 2 ^ - 56\<close>.\<close>

definition shop_with_tenths :: db where
  "shop_with_tenths =
     shop\<lparr>orders := [''o2'' \<mapsto> \<lparr>order_userId = ''u1''\<rparr>],
          orderItemRows := [\<lparr>productId = ''p1'', unitPrice = Finite 7205759403792794 (- 56),
                             quantity = 3, orderId = ''o2''\<rparr>]\<rparr>"

text \<open>What \<open>asyncHandler\<close> answers for the outcome of a handler.\<close>

definition respond :: "error + 'a response \<Rightarrow> 'a response" where
  "respond r = (case r of Inl e \<Rightarrow> catch_response e | Inr res \<Rightarrow> res)"

text \<open>Two requests to \<^verbatim>\<open>POST /orders\<close> served concurrently, in the schedule where both
  handlers reach their first \<^verbatim>\<open>await\<close> (the read of the products) before either goes on:
  each checks the stock it has read, and the transactions then run one after the other.\<close>

definition POST_orders_concurrently ::
  "createOrderBody struct \<Rightarrow> fault \<Rightarrow> ident \<times> createOrderBody \<Rightarrow> ident \<times> createOrderBody \<Rightarrow> db
     \<Rightarrow> result response \<times> result response \<times> db" where
  "POST_orders_concurrently CreateOrder fault a b s =
     (let read_a = post_orders_read CreateOrder (snd a) s;
          read_b = post_orders_read CreateOrder (snd b) s;
          (res_a, s1) = (case read_a of Inl e \<Rightarrow> (Inl e, s)
                         | Inr ps \<Rightarrow> post_orders_commit (fst a) fault (snd a) ps s);
          (res_b, s2) = (case read_b of Inl e \<Rightarrow> (Inl e, s1)
                         | Inr ps \<Rightarrow> post_orders_commit (fst b) fault (snd b) ps s1)
      in (respond res_a, respond res_b, s2))"

text \<open>Bodies of \<^verbatim>\<open>POST /orders\<close> for the examples.\<close>

definition order_of_3 :: createOrderBody where
  "order_of_3 = \<lparr>userId = ''u1'', orderItems = [line ''p1'' 10 3]\<rparr>"

definition order_two_products :: createOrderBody where
  "order_two_products = \<lparr>userId = ''u1'', orderItems = [line ''p1'' 10 2, line ''p2'' 5 1]\<rparr>"

definition order_same_product_twice :: createOrderBody where
  "order_same_product_twice = \<lparr>userId = ''u1'', orderItems = [line ''p1'' 10 2, line ''p1'' 10 3]\<rparr>"

definition order_first_small :: createOrderBody where
  "order_first_small = \<lparr>userId = ''u1'', orderItems = [line ''p1'' 10 1, line ''p1'' 10 100]\<rparr>"

definition order_too_many :: createOrderBody where
  "order_too_many = \<lparr>userId = ''u1'', orderItems = [line ''p2'' 5 3]\<rparr>"

definition order_missing_product :: createOrderBody where
  "order_missing_product = \<lparr>userId = ''u1'', orderItems = [line ''p1'' 10 2, line ''p9'' 1 1]\<rparr>"

definition order_missing_and_short :: createOrderBody where
  "order_missing_and_short = \<lparr>userId = ''u1'', orderItems = [line ''p1'' 10 9, line ''p9'' 1 1]\<rparr>"

definition order_own_price :: createOrderBody where
  "order_own_price = \<lparr>userId = ''u1'', orderItems = [line ''p1'' 7 2]\<rparr>"

definition order_3_twice :: createOrderBody where
  "order_3_twice = \<lparr>userId = ''u1'', orderItems = [line ''p1'' 10 3, line ''p1'' 10 3]\<rparr>"

text \<open>A store that fails the statement after the insert of the order.\<close>

definition fault_after_insert :: fault where
  "fault_after_insert k = (if k = 1 then Some (Error ''storage fault'') else None)"

text \<open>A body of \<^verbatim>\<open>PATCH /products/:id\<close> that sets the price to 99.\<close>

definition price_to_99 :: patchProductBody where
  "price_to_99 = \<lparr>patch_price = Some (js_of_int 99), patch_stock = None\<rparr>"

text \<open>Modelled from the spec: \<^verbatim>\<open>structs.js\<close>, where the struct \<open>PatchProduct\<close> is declared, is
  missing. The handler takes the struct as a parameter; this one, for the examples, asks for
  the non-negative price of the data model.\<close>

definition PatchProduct_sample :: "patchProductBody struct" where
  "PatchProduct_sample b =
     (case patch_price b of None \<Rightarrow> None
      | Some v \<Rightarrow> if negative v then Some ''price: expected a number of at least 0'' else None)"

lemmas sample_defs = shop_def line_def order_two_products_def order_same_product_twice_def
  order_first_small_def order_too_many_def order_missing_product_def order_missing_and_short_def
  order_own_price_def order_3_twice_def order_of_3_def
  CreateOrder_sample_def no_fault_def

section \<open>The arithmetic of numbers on small integers\<close>

lemma bitlen_le_53:
  assumes "0 < a" "a < 2 ^ 53"
  shows "1 \<le> bitlen a \<and> bitlen a \<le> 53"
proof -
  from bitlen_bounds [OF assms(1)] have lo: "2 ^ nat (bitlen a - 1) \<le> a" by blast
  have "bitlen a \<noteq> 0" using assms(1) by (simp add: bitlen_eq_zero_iff)
  with bitlen_nonneg [of a] have 1: "1 \<le> bitlen a" by linarith
  have "bitlen a \<le> 53"
  proof (rule ccontr)
    assume "\<not> bitlen a \<le> 53"
    then have "53 \<le> nat (bitlen a - 1)" by linarith
    then have "(2::int) ^ 53 \<le> 2 ^ nat (bitlen a - 1)" by (rule power_increasing) simp
    with lo assms(2) show False by linarith
  qed
  with 1 show ?thesis by simp
qed

lemma round_small:
  assumes "a \<noteq> 0" "\<bar>a\<bar> < 2 ^ 53"
  shows "round_to_double (a * 2 ^ k) (- int k)
           = Finite (a * 2 ^ nat (53 - bitlen \<bar>a\<bar>)) (bitlen \<bar>a\<bar> - 53)"
proof -
  let ?n = "bitlen \<bar>a\<bar>"
  have pos: "0 < \<bar>a\<bar>" using assms(1) by simp
  from bitlen_le_53 [OF pos assms(2)] have n: "1 \<le> ?n" "?n \<le> 53" by simp_all
  have m0: "a * 2 ^ k \<noteq> 0" using assms(1) by simp
  have bl: "bitlen \<bar>a * 2 ^ k\<bar> = ?n + int k"
    using bitlen_pow2 [OF pos, of k] by (simp add: abs_mult)
  have e': "max (bitlen \<bar>a * 2 ^ k\<bar> + (- int k) - 53) (- 1074) = ?n - 53"
    using n by (simp add: bl)
  let ?q = "a * 2 ^ nat (53 - ?n)"
  have qabs: "\<bar>?q\<bar> < 2 ^ 53" "?q \<noteq> 0"
  proof -
    from bitlen_bounds [OF pos] have "\<bar>a\<bar> < 2 ^ nat ?n" by blast
    then have "\<bar>a\<bar> * 2 ^ nat (53 - ?n) < 2 ^ nat ?n * 2 ^ nat (53 - ?n)" by simp
    also have "\<dots> = 2 ^ (nat ?n + nat (53 - ?n))" by (simp add: power_add)
    also have "nat ?n + nat (53 - ?n) = 53" using n by linarith
    finally show "\<bar>?q\<bar> < 2 ^ 53" by (simp add: abs_mult)
    show "?q \<noteq> 0" using assms(1) by simp
  qed
  let ?M = "a * 2 ^ k" and ?d = "(2::int) ^ nat (?n - 53 - (- int k))"
  have q: "(if ?n - 53 \<le> - int k then ?M * 2 ^ nat (- int k - (?n - 53))
            else if ?d < 2 * (?M mod ?d) \<or> (2 * (?M mod ?d) = ?d \<and> odd (?M div ?d))
              then ?M div ?d + 1 else ?M div ?d) = ?q"
  proof (cases "?n - 53 \<le> - int k")
    case True
    then have "k + nat (- int k - (?n - 53)) = nat (53 - ?n)" by linarith
    then have "(2::int) ^ k * 2 ^ nat (- int k - (?n - 53)) = 2 ^ nat (53 - ?n)"
      by (simp flip: power_add)
    with True show ?thesis by (simp add: mult.assoc)
  next
    case False
    let ?j = "nat (?n - 53 - (- int k))"
    from False n have k: "k = nat (53 - ?n) + ?j" by linarith
    have split: "a * 2 ^ k = ?q * 2 ^ ?j"
      by (subst k) (simp add: power_add mult.assoc)
    have d: "a * 2 ^ k div 2 ^ ?j = ?q" "a * 2 ^ k mod 2 ^ ?j = 0"
      by (simp_all add: split)
    have "\<not> ((2::int) ^ ?j < 2 * 0)" by simp
    have "\<not> ?d < 2 * (?M mod ?d)" "2 * (?M mod ?d) \<noteq> ?d"
      unfolding d by simp_all
    with False show ?thesis unfolding d(1) by (simp only: if_False simp_thms)
  qed
  have fin: "\<not> 971 < ?n - 53" using n by simp
  have ne: "\<bar>?q\<bar> \<noteq> 2 ^ 53" using qabs(1) by linarith
  show ?thesis
    unfolding round_to_double_def Let_def e' q using m0 qabs(2) ne fin
    by (simp only: if_False)
qed

lemma js_of_int_small:
  assumes "a \<noteq> 0" "\<bar>a\<bar> < 2 ^ 53"
  shows "js_of_int a = Finite (a * 2 ^ nat (53 - bitlen \<bar>a\<bar>)) (bitlen \<bar>a\<bar> - 53)"
  using round_small [OF assms, of 0] by (simp add: js_of_int_def)

lemma round_shift:
  assumes "\<bar>a\<bar> < 2 ^ 53"
  shows "round_to_double (a * 2 ^ k) (- int k) = js_of_int a"
proof (cases "a = 0")
  case True
  then show ?thesis by (simp add: round_to_double_def js_of_int_def)
next
  case False
  from round_small [OF False assms, of k] js_of_int_small [OF False assms]
  show ?thesis by simp
qed

lemma js_of_int_0: "js_of_int 0 = Finite 0 0"
  by (simp add: js_of_int_def round_to_double_def)

lemma js_mul_ints:
  assumes "\<bar>a\<bar> < 2 ^ 53" "\<bar>b\<bar> < 2 ^ 53" "\<bar>a * b\<bar> < 2 ^ 53"
  shows "js_mul (js_of_int a) (js_of_int b) = js_of_int (a * b)"
proof (cases "a = 0 \<or> b = 0")
  case True
  then show ?thesis
  proof
    assume a: "a = 0"
    show ?thesis
    proof (cases "b = 0")
      case True with a show ?thesis by (simp add: js_of_int_0 round_to_double_def)
    next
      case False
      with a js_of_int_small [OF False assms(2)] show ?thesis
        by (simp add: js_of_int_0 round_to_double_def)
    qed
  next
    assume b: "b = 0"
    show ?thesis
    proof (cases "a = 0")
      case True with b show ?thesis by (simp add: js_of_int_0 round_to_double_def)
    next
      case False
      with b js_of_int_small [OF False assms(1)] show ?thesis
        by (simp add: js_of_int_0 round_to_double_def)
    qed
  qed
next
  case False
  then have a: "a \<noteq> 0" and b: "b \<noteq> 0" by simp_all
  let ?ka = "nat (53 - bitlen \<bar>a\<bar>)" and ?kb = "nat (53 - bitlen \<bar>b\<bar>)"
  from bitlen_le_53 [of "\<bar>a\<bar>"] a assms(1) have na: "bitlen \<bar>a\<bar> - 53 = - int ?ka" by simp
  from bitlen_le_53 [of "\<bar>b\<bar>"] b assms(2) have nb: "bitlen \<bar>b\<bar> - 53 = - int ?kb" by simp
  have "js_mul (js_of_int a) (js_of_int b)
          = round_to_double (a * 2 ^ ?ka * (b * 2 ^ ?kb)) (- int ?ka + - int ?kb)"
    by (simp add: js_of_int_small [OF a assms(1)] js_of_int_small [OF b assms(2)] na nb)
  also have "a * 2 ^ ?ka * (b * 2 ^ ?kb) = (a * b) * 2 ^ (?ka + ?kb)"
    by (simp add: power_add mult_ac)
  also have "- int ?ka + - int ?kb = - int (?ka + ?kb)" by simp
  also have "round_to_double ((a * b) * 2 ^ (?ka + ?kb)) (- int (?ka + ?kb)) = js_of_int (a * b)"
    by (rule round_shift [OF assms(3)])
  finally show ?thesis .
qed

lemma js_add_ints:
  assumes "\<bar>a\<bar> < 2 ^ 53" "\<bar>b\<bar> < 2 ^ 53" "\<bar>a + b\<bar> < 2 ^ 53"
  shows "js_add (js_of_int a) (js_of_int b) = js_of_int (a + b)"
proof -
  have rep: "\<exists>k. js_of_int c = Finite (c * 2 ^ k) (- int k)" if "\<bar>c\<bar> < 2 ^ 53" for c
  proof (cases "c = 0")
    case True
    then have "js_of_int c = Finite (c * 2 ^ 0) (- int 0)" by (simp add: js_of_int_0)
    then show ?thesis by blast
  next
    case False
    from bitlen_le_53 [of "\<bar>c\<bar>"] False that
    have "bitlen \<bar>c\<bar> - 53 = - int (nat (53 - bitlen \<bar>c\<bar>))" by simp
    with js_of_int_small [OF False that] show ?thesis by metis
  qed
  from rep [OF assms(1)] obtain ka where a: "js_of_int a = Finite (a * 2 ^ ka) (- int ka)" ..
  from rep [OF assms(2)] obtain kb where b: "js_of_int b = Finite (b * 2 ^ kb) (- int kb)" ..
  let ?k = "max ka kb"
  have e: "min (- int ka) (- int kb) = - int ?k" by simp
  have sa: "a * 2 ^ ka * 2 ^ nat (- int ka - (- int ?k)) = a * 2 ^ ?k"
  proof -
    have "ka + nat (- int ka - (- int ?k)) = ?k" by simp
    then have "(2::int) ^ ka * 2 ^ nat (- int ka - (- int ?k)) = 2 ^ ?k"
      by (simp flip: power_add)
    then show ?thesis by (simp add: mult.assoc)
  qed
  have sb: "b * 2 ^ kb * 2 ^ nat (- int kb - (- int ?k)) = b * 2 ^ ?k"
  proof -
    have "kb + nat (- int kb - (- int ?k)) = ?k" by simp
    then have "(2::int) ^ kb * 2 ^ nat (- int kb - (- int ?k)) = 2 ^ ?k"
      by (simp flip: power_add)
    then show ?thesis by (simp add: mult.assoc)
  qed
  have "js_add (js_of_int a) (js_of_int b)
          = round_to_double (a * 2 ^ ?k + b * 2 ^ ?k) (- int ?k)"
    unfolding a b js_add.simps Let_def e sa sb ..
  also have "a * 2 ^ ?k + b * 2 ^ ?k = (a + b) * 2 ^ ?k" by (simp add: distrib_right)
  also have "round_to_double ((a + b) * 2 ^ ?k) (- int ?k) = js_of_int (a + b)"
    by (rule round_shift [OF assms(3)])
  finally show ?thesis .
qed

lemma order_total_from:
  assumes "\<forall>oi \<in> set ois. unitPrice oi = js_of_int (u oi) \<and> \<bar>u oi\<bar> < 2 ^ 53 \<and> \<bar>quantity oi\<bar> < 2 ^ 53"
    and "\<bar>c\<bar> + (\<Sum>oi\<leftarrow>ois. \<bar>u oi * quantity oi\<bar>) < 2 ^ 53"
  shows "foldl (\<lambda>acc oi. js_add acc (js_mul (unitPrice oi) (js_of_int (quantity oi)))) (js_of_int c) ois
           = js_of_int (c + (\<Sum>oi\<leftarrow>ois. u oi * quantity oi))"
  using assms
proof (induction ois arbitrary: c)
  case Nil
  then show ?case by simp
next
  case (Cons x ois)
  let ?p = "u x * quantity x"
  have rest: "0 \<le> (\<Sum>oi\<leftarrow>ois. \<bar>u oi * quantity oi\<bar>)" by (rule sum_list_nonneg) auto
  from Cons.prems(2) rest have c: "\<bar>c\<bar> < 2 ^ 53" and p: "\<bar>?p\<bar> < 2 ^ 53"
    and cp: "\<bar>c + ?p\<bar> < 2 ^ 53"
    and next_bound: "\<bar>c + ?p\<bar> + (\<Sum>oi\<leftarrow>ois. \<bar>u oi * quantity oi\<bar>) < 2 ^ 53"
    by simp_all
  from Cons.prems(1) have x: "unitPrice x = js_of_int (u x)" "\<bar>u x\<bar> < 2 ^ 53" "\<bar>quantity x\<bar> < 2 ^ 53"
    and tl: "\<forall>oi \<in> set ois. unitPrice oi = js_of_int (u oi) \<and> \<bar>u oi\<bar> < 2 ^ 53 \<and> \<bar>quantity oi\<bar> < 2 ^ 53"
    by simp_all
  have "js_add (js_of_int c) (js_mul (unitPrice x) (js_of_int (quantity x))) = js_of_int (c + ?p)"
    by (simp only: x(1) js_mul_ints [OF x(2,3) p] js_add_ints [OF c p cp])
  with Cons.IH [OF tl next_bound] show ?case by (simp add: add.assoc)
qed

lemma order_total_ints:
  assumes "\<forall>oi \<in> set ois. unitPrice oi = js_of_int (u oi) \<and> \<bar>u oi\<bar> < 2 ^ 53 \<and> \<bar>quantity oi\<bar> < 2 ^ 53"
    and "(\<Sum>oi\<leftarrow>ois. \<bar>u oi * quantity oi\<bar>) < 2 ^ 53"
  shows "order_total ois = js_of_int (\<Sum>oi\<leftarrow>ois. u oi * quantity oi)"
  using order_total_from [OF assms(1), of 0] assms(2)
  by (simp add: order_total_def js_of_int_0)

lemma order_total_js_sum:
  "order_total ois = js_sum (map (\<lambda>oi. js_mul (unitPrice oi) (js_of_int (quantity oi))) ois)"
  by (simp add: order_total_def js_sum_def foldl_map)

section \<open>The helper and the queries of a placement\<close>

lemma getQuantity_first:
  "pid \<in> productId ` set ois \<Longrightarrow> getQuantity ois pid = Inr (first_quantity ois pid)"
  by (auto simp: getQuantity_def first_quantity_def find_None_iff split: option.splits)

lemma queryPromises_eq:
  "set pids \<subseteq> productId ` set ois \<Longrightarrow> queryPromises ois pids = Inr (decrements ois pids)"
  by (induction pids) (simp_all add: getQuantity_first decrements_def)

lemma isSufficientStock_eq:
  "fst ` set ps \<subseteq> productId ` set ois \<Longrightarrow>
   isSufficientStock ois ps = Inr (\<forall>(i, p) \<in> set ps. first_quantity ois i \<le> stock p)"
proof (induction ps)
  case Nil
  show ?case by simp
next
  case (Cons a ps)
  obtain i p where a: "a = (i, p)" by (cases a)
  from Cons.prems a have "i \<in> productId ` set ois" by simp
  then have q: "getQuantity ois i = Inr (first_quantity ois i)" by (rule getQuantity_first)
  from Cons have ih: "isSufficientStock ois ps = Inr (\<forall>(i, p) \<in> set ps. first_quantity ois i \<le> stock p)"
    by simp
  show ?case by (simp add: a q ih)
qed

lemma set_product_findMany:
  "set (product_findMany ids s) = {(i, p). i \<in> set ids \<and> products s i = Some p}"
proof -
  have "(i, p) \<in> set (product_findMany ids s) \<longleftrightarrow> i \<in> set ids \<and> products s i = Some p" for i p
  proof
    assume "(i, p) \<in> set (product_findMany ids s)"
    then show "i \<in> set ids \<and> products s i = Some p"
      by (auto simp: product_findMany_def List.map_filter_def)
  next
    assume a: "i \<in> set ids \<and> products s i = Some p"
    then have "i \<in> {x \<in> set ids. products s x \<noteq> None}" by simp
    moreover have "the (map_option (Pair i) (products s i)) = (i, p)" using a by simp
    ultimately show "(i, p) \<in> set (product_findMany ids s)"
      unfolding product_findMany_def List.map_filter_def by force
  qed
  then show ?thesis by auto
qed

lemma isSufficientStock_findMany:
  "isSufficientStock (orderItems b) (product_findMany (map productId (orderItems b)) s)
     = Inr (sufficient b s)"
proof -
  have "fst ` set (product_findMany (map productId (orderItems b)) s)
          \<subseteq> productId ` set (orderItems b)"
    by (auto simp: set_product_findMany)
  then show ?thesis
    by (simp add: isSufficientStock_eq) (auto simp: set_product_findMany sufficient_def)
qed

lemma decrement_all_Cons:
  "m pid = Some p \<Longrightarrow>
   decrement_all g pids (m(pid \<mapsto> p\<lparr>stock := stock p - g pid\<rparr>)) = decrement_all g (pid # pids) m"
  by (rule ext) (simp add: decrement_all_def algebra_simps)

lemma decrement_all_Nil: "decrement_all g [] m = m"
  by (rule ext) (simp add: decrement_all_def option.map_ident)

lemma run_decrements_Inr:
  "run_queries fault k (map (\<lambda>pid. Product_update_decrement pid (g pid)) pids) s = Inr (rs, s') \<Longrightarrow>
   (\<forall>pid \<in> set pids. products s pid \<noteq> None) \<and> (\<forall>j \<le> length pids. fault (k + j) = None) \<and>
   s' = s\<lparr>products := decrement_all g pids (products s)\<rparr>"
proof (induction pids arbitrary: k s rs)
  case Nil
  then show ?case by (simp add: decrement_all_Nil split: option.splits)
next
  case (Cons pid pids)
  from Cons.prems obtain p rs1 where f: "fault k = None" and p: "products s pid = Some p"
    and r: "run_queries fault (Suc k) (map (\<lambda>pid. Product_update_decrement pid (g pid)) pids)
              (s\<lparr>products := (products s)(pid \<mapsto> p\<lparr>stock := stock p - g pid\<rparr>)\<rparr>) = Inr (rs1, s')"
    by (auto simp: product_update_def split: option.splits sum.splits)
  note ih = Cons.IH [OF r]
  have 1: "\<forall>pid' \<in> set (pid # pids). products s pid' \<noteq> None"
    using ih p by (auto split: if_splits)
  have 2: "\<forall>j \<le> length (pid # pids). fault (k + j) = None"
  proof (intro allI impI)
    fix j assume "j \<le> length (pid # pids)"
    show "fault (k + j) = None"
    proof (cases j)
      case 0 with f show ?thesis by simp
    next
      case (Suc j')
      with \<open>j \<le> length (pid # pids)\<close> ih show ?thesis by simp
    qed
  qed
  have 3: "s' = s\<lparr>products := decrement_all g (pid # pids) (products s)\<rparr>"
  proof -
    let ?s1 = "s\<lparr>products := (products s)(pid \<mapsto> p\<lparr>stock := stock p - g pid\<rparr>)\<rparr>"
    have e: "decrement_all g pids (products ?s1) = decrement_all g (pid # pids) (products s)"
      using p decrement_all_Cons [of "products s" pid p g pids] by simp
    from ih have "s' = ?s1\<lparr>products := decrement_all g pids (products ?s1)\<rparr>" by blast
    then have "s' = ?s1\<lparr>products := decrement_all g (pid # pids) (products s)\<rparr>"
      by (simp only: e)
    then show ?thesis by simp
  qed
  from 1 2 3 show ?case by blast
qed

lemma run_decrements_ok:
  "\<forall>pid \<in> set pids. products s pid \<noteq> None \<Longrightarrow> \<forall>j \<le> length pids. fault (k + j) = None \<Longrightarrow>
   \<exists>rs. run_queries fault k (map (\<lambda>pid. Product_update_decrement pid (g pid)) pids) s
          = Inr (rs, s\<lparr>products := decrement_all g pids (products s)\<rparr>)"
proof (induction pids arbitrary: k s)
  case Nil
  then show ?case by (simp add: decrement_all_Nil)
next
  case (Cons pid pids)
  from Cons.prems obtain p where p: "products s pid = Some p" by auto
  let ?s1 = "s\<lparr>products := (products s)(pid \<mapsto> p\<lparr>stock := stock p - g pid\<rparr>)\<rparr>"
  have f: "fault k = None" using Cons.prems(2) by (metis add.right_neutral le0)
  have a: "\<forall>pid \<in> set pids. products ?s1 pid \<noteq> None" using Cons.prems(1) by simp
  have b: "\<forall>j \<le> length pids. fault (Suc k + j) = None"
  proof (intro allI impI)
    fix j assume "j \<le> length pids"
    then have "Suc j \<le> length (pid # pids)" by simp
    with Cons.prems(2) have "fault (k + Suc j) = None" by blast
    then show "fault (Suc k + j) = None" by simp
  qed
  from Cons.IH [OF a b] obtain rs where
    "run_queries fault (Suc k) (map (\<lambda>pid. Product_update_decrement pid (g pid)) pids) ?s1
       = Inr (rs, ?s1\<lparr>products := decrement_all g pids (products ?s1)\<rparr>)" by blast
  moreover have "decrement_all g pids (products ?s1) = decrement_all g (pid # pids) (products s)"
    using p decrement_all_Cons [of "products s" pid p g pids] by simp
  ultimately show ?case using p f by (simp add: product_update_def)
qed

lemma post_orders_eq:
  "post_orders CreateOrder uuid fault b s =
     (case CreateOrder b of
        Some m \<Rightarrow> (Inl (StructError m), s)
      | None \<Rightarrow>
          if \<not> sufficient b s then (Inl (Error ''Insufficient Stock''), s)
          else (case transaction fault (placement uuid b) s of
                  (Inl e, s') \<Rightarrow> (Inl e, s')
                | (Inr rs, s') \<Rightarrow> (Inr (created rs), s')))"
proof -
  have q: "queryPromises (orderItems b) (map productId (orderItems b))
             = Inr (decrements (orderItems b) (map productId (orderItems b)))"
    by (rule queryPromises_eq) simp
  show ?thesis
    by (simp add: post_orders_def post_orders_read_def post_orders_commit_def assert_def
        isSufficientStock_findMany q placement_def split: option.splits)
qed

lemma post_orders_Inl:
  "post_orders CreateOrder uuid fault b s = (Inl e, s') \<Longrightarrow> s' = s"
  by (auto simp: post_orders_eq transaction_def split: option.splits if_splits sum.splits prod.splits)

lemma transaction_placement_Inr:
  assumes "transaction fault (placement uuid b) s = (Inr rs, s')"
  shows "orders s uuid = None \<and> (\<forall>oi \<in> set (orderItems b). products s (productId oi) \<noteq> None)
         \<and> (\<forall>k \<le> Suc (length (orderItems b)). fault k = None)
         \<and> s' = committed uuid b s
         \<and> created rs = \<lparr>status = 201, body = Json (OrderResult (created_order uuid b s))\<rparr>"
proof -
  let ?s1 = "s\<lparr>orders := (orders s)(uuid \<mapsto> \<lparr>order_userId = userId b\<rparr>),
               orderItemRows := orderItemRows s @ map (attach uuid) (orderItems b)\<rparr>"
  let ?g = "first_quantity (orderItems b)"
  let ?pids = "map productId (orderItems b)"
  from assms obtain rs1 where f0: "fault 0 = None" and fresh: "orders s uuid = None"
    and rs: "rs = OrderResult (created_order uuid b s) # rs1"
    and run: "run_queries fault (Suc 0) (map (\<lambda>pid. Product_update_decrement pid (?g pid)) ?pids) ?s1
                = Inr (rs1, s')"
    by (auto simp: transaction_def placement_def decrements_def created_order_def Let_def
        split: option.splits if_splits sum.splits prod.splits)
  note d = run_decrements_Inr [OF run]
  have 1: "\<forall>oi \<in> set (orderItems b). products s (productId oi) \<noteq> None"
    using d by simp
  have 2: "\<forall>k \<le> Suc (length (orderItems b)). fault k = None"
  proof (intro allI impI)
    fix k assume k: "k \<le> Suc (length (orderItems b))"
    show "fault k = None"
    proof (cases k)
      case 0 with f0 show ?thesis by simp
    next
      case (Suc j)
      with k have "j \<le> length ?pids" by simp
      with d have "fault (Suc 0 + j) = None" by blast
      with Suc show ?thesis by simp
    qed
  qed
  have 3: "s' = committed uuid b s"
    using d by (simp add: committed_def)
  have 4: "created rs = \<lparr>status = 201, body = Json (OrderResult (created_order uuid b s))\<rparr>"
    by (simp add: rs created_def send_def)
  from fresh 1 2 3 4 show ?thesis by blast
qed

lemma transaction_placement_ok:
  assumes "orders s uuid = None" "\<forall>oi \<in> set (orderItems b). products s (productId oi) \<noteq> None"
    "\<forall>k \<le> Suc (length (orderItems b)). fault k = None"
  shows "\<exists>rs. transaction fault (placement uuid b) s = (Inr rs, committed uuid b s)"
proof -
  let ?s1 = "s\<lparr>orders := (orders s)(uuid \<mapsto> \<lparr>order_userId = userId b\<rparr>),
               orderItemRows := orderItemRows s @ map (attach uuid) (orderItems b)\<rparr>"
  let ?g = "first_quantity (orderItems b)"
  let ?pids = "map productId (orderItems b)"
  have f0: "fault 0 = None" using assms(3) by blast
  have a: "\<forall>pid \<in> set ?pids. products ?s1 pid \<noteq> None" using assms(2) by simp
  have c: "\<forall>j \<le> length ?pids. fault (Suc 0 + j) = None" using assms(3) by simp
  from run_decrements_ok [OF a c, of ?g] obtain rs1 where
    "run_queries fault (Suc 0) (map (\<lambda>pid. Product_update_decrement pid (?g pid)) ?pids) ?s1
       = Inr (rs1, ?s1\<lparr>products := decrement_all ?g ?pids (products ?s1)\<rparr>)" by blast
  then show ?thesis using f0 assms(1)
    by (simp add: transaction_def placement_def decrements_def committed_def Let_def)
qed

lemma post_orders_Inr:
  assumes "post_orders CreateOrder uuid fault b s = (Inr res, s')"
  shows "CreateOrder b = None \<and> sufficient b s \<and> orders s uuid = None
         \<and> (\<forall>oi \<in> set (orderItems b). products s (productId oi) \<noteq> None)
         \<and> (\<forall>k \<le> Suc (length (orderItems b)). fault k = None)
         \<and> s' = committed uuid b s
         \<and> res = \<lparr>status = 201, body = Json (OrderResult (created_order uuid b s))\<rparr>"
proof -
  from assms obtain rs where v: "CreateOrder b = None" and su: "sufficient b s"
    and t: "transaction fault (placement uuid b) s = (Inr rs, s')" and r: "res = created rs"
    by (auto simp: post_orders_eq split: option.splits if_splits sum.splits prod.splits)
  from transaction_placement_Inr [OF t] v su r show ?thesis by simp
qed

lemma post_orders_ok:
  assumes "CreateOrder b = None" "sufficient b s" "orders s uuid = None"
    "\<forall>oi \<in> set (orderItems b). products s (productId oi) \<noteq> None"
    "\<forall>k \<le> Suc (length (orderItems b)). fault k = None"
  shows "post_orders CreateOrder uuid fault b s =
           (Inr \<lparr>status = 201, body = Json (OrderResult (created_order uuid b s))\<rparr>, committed uuid b s)"
proof -
  from transaction_placement_ok [OF assms(3,4,5)] obtain rs where
    t: "transaction fault (placement uuid b) s = (Inr rs, committed uuid b s)" by blast
  from transaction_placement_Inr [OF t] have "created rs = \<lparr>status = 201, body = Json (OrderResult (created_order uuid b s))\<rparr>"
    by blast
  with t assms(1,2) show ?thesis by (simp add: post_orders_eq)
qed

lemma find_first_distinct:
  "distinct (map f xs) \<Longrightarrow> x \<in> set xs \<Longrightarrow> find (\<lambda>y. f y = f x) xs = Some x"
  by (induction xs) auto

lemma count_list_distinct:
  "distinct xs \<Longrightarrow> x \<in> set xs \<Longrightarrow> count_list xs x = 1"
  by (induction xs) auto

lemma status_catch_response:
  "status (catch_response e) \<in> {400, 404, 500}"
  by (cases e) simp_all

lemma POST_orders_Inl:
  "post_orders CreateOrder uuid fault b s = (Inl e, s') \<Longrightarrow>
   POST_orders CreateOrder uuid fault b s = (catch_response e, s)"
  using post_orders_Inl [of CreateOrder uuid fault b s e s']
  by (simp add: POST_orders_def asyncHandler_def)

lemma POST_orders_Inr:
  "post_orders CreateOrder uuid fault b s = (Inr res, s') \<Longrightarrow>
   POST_orders CreateOrder uuid fault b s = (res, s')"
  by (simp add: POST_orders_def asyncHandler_def)

lemma committed_product:
  "products (committed uuid b s) i =
     map_option (\<lambda>r. r\<lparr>stock := stock r - first_quantity (orderItems b) i
                        * int (count_list (map productId (orderItems b)) i)\<rparr>) (products s i)"
  by (simp add: committed_def decrement_all_def)

lemma run_decrements_missing:
  "\<exists>pid \<in> set pids. products s pid = None \<Longrightarrow> \<forall>j \<le> length pids. fault (k + j) = None \<Longrightarrow>
   run_queries fault k (map (\<lambda>pid. Product_update_decrement pid (g pid)) pids) s
     = Inl record_not_found"
proof (induction pids arbitrary: k s)
  case Nil
  then show ?case by simp
next
  case (Cons pid pids)
  have f: "fault k = None" using Cons.prems(2) by (metis add.right_neutral le0)
  show ?case
  proof (cases "products s pid")
    case None
    with f show ?thesis by (simp add: product_update_def)
  next
    case (Some p)
    let ?s1 = "s\<lparr>products := (products s)(pid \<mapsto> p\<lparr>stock := stock p - g pid\<rparr>)\<rparr>"
    from Cons.prems(1) Some obtain pid' where m: "pid' \<in> set pids" "products s pid' = None"
      by auto
    with Some have "pid' \<noteq> pid" by auto
    with m have a: "\<exists>pid \<in> set pids. products ?s1 pid = None" by auto
    have c: "\<forall>j \<le> length pids. fault (Suc k + j) = None"
    proof (intro allI impI)
      fix j assume "j \<le> length pids"
      then have "Suc j \<le> length (pid # pids)" by simp
      with Cons.prems(2) have "fault (k + Suc j) = None" by blast
      then show "fault (Suc k + j) = None" by simp
    qed
    from Cons.IH [OF a c] Some f show ?thesis by (simp add: product_update_def)
  qed
qed

lemma transaction_placement_missing:
  assumes "oi \<in> set (orderItems b)" "products s (productId oi) = None" "orders s uuid = None"
    "\<forall>k \<le> Suc (length (orderItems b)). fault k = None"
  shows "transaction fault (placement uuid b) s = (Inl record_not_found, s)"
proof -
  let ?s1 = "s\<lparr>orders := (orders s)(uuid \<mapsto> \<lparr>order_userId = userId b\<rparr>),
               orderItemRows := orderItemRows s @ map (attach uuid) (orderItems b)\<rparr>"
  let ?g = "first_quantity (orderItems b)"
  let ?pids = "map productId (orderItems b)"
  have f0: "fault 0 = None" using assms(4) by blast
  have a: "\<exists>pid \<in> set ?pids. products ?s1 pid = None" using assms(1,2) by auto
  have c: "\<forall>j \<le> length ?pids. fault (Suc 0 + j) = None" using assms(4) by simp
  from run_decrements_missing [OF a c, of ?g] f0 assms(3) show ?thesis
    by (simp add: transaction_def placement_def decrements_def Let_def)
qed

lemma patch_product_frame:
  "orders (snd (PATCH_products_id PatchProduct r t)) = orders t \<and>
   orderItemRows (snd (PATCH_products_id PatchProduct r t)) = orderItemRows t"
  by (auto simp: PATCH_products_id_def asyncHandler_def patch_product_def product_update_def
      split: sum.splits option.splits prod.splits)

lemma patched_product:
  "PatchProduct b = None \<Longrightarrow> products t i = Some p \<Longrightarrow>
   products (snd (PATCH_products_id PatchProduct (i, b) t)) i = Some (apply_patch b p)"
  by (simp add: PATCH_products_id_def asyncHandler_def patch_product_def assert_def product_update_def)

lemma GET_orders_id_cong:
  "orders t' = orders t \<Longrightarrow> orderItemRows t' = orderItemRows t \<Longrightarrow>
   fst (GET_orders_id i t') = fst (GET_orders_id i t)"
  by (simp add: GET_orders_id_def asyncHandler_def get_order_def order_findUniqueOrThrow_def
      split: sum.splits)

lemma attach_simps:
  "productId (attach oid oi) = productId oi" "unitPrice (attach oid oi) = unitPrice oi"
  "quantity (attach oid oi) = quantity oi" "orderId (attach oid oi) = oid"
  by (simp_all add: attach_def)

section \<open>Reading an order\<close>

lemma get_order_Some:
  "orders s i = Some row \<Longrightarrow>
   get_order i s = (Inr \<lparr>status = 200, body = Json \<lparr>id = i, owner = order_userId row,
      items = filter (\<lambda>oi. orderId oi = i) (orderItemRows s),
      total = Some (order_total (filter (\<lambda>oi. orderId oi = i) (orderItemRows s)))\<rparr>\<rparr>, s)"
  by (simp add: get_order_def order_findUniqueOrThrow_def findUniqueOrThrow_def send_def)

lemma get_order_None:
  "orders s i = None \<Longrightarrow> get_order i s = (Inl record_not_found, s)"
  by (simp add: get_order_def order_findUniqueOrThrow_def findUniqueOrThrow_def)

text \<open>
  C6. For every stored order, the fetch by identifier answers 200 with the order, its
  order items, and a \<open>total\<close> that is the sum over those items of unit price times
  quantity, computed from the items on that fetch in the arithmetic of numbers, from 0 and
  in the order of the items; the order row itself holds no total, and the store is left as
  it was. Where the unit prices are integers and the amounts stay below \<open>2 ^ 53\<close>, that sum
  is the exact one: items of unit price 10, quantity 2, and unit price 5, quantity 1, give 25.
\<close>

theorem order_total_derived:
  assumes "orders s i = Some row"
  shows "GET_orders_id i s =
     (\<lparr>status = 200,
       body = Json \<lparr>id = i, owner = order_userId row,
                    items = filter (\<lambda>oi. orderId oi = i) (orderItemRows s),
                    total = Some (js_sum (map (\<lambda>oi. js_mul (unitPrice oi) (js_of_int (quantity oi)))
                                    (filter (\<lambda>oi. orderId oi = i) (orderItemRows s))))\<rparr>\<rparr>, s)
   \<and> ((\<forall>oi \<in> set (filter (\<lambda>oi. orderId oi = i) (orderItemRows s)).
           unitPrice oi = js_of_int (u oi) \<and> \<bar>u oi\<bar> < 2 ^ 53 \<and> \<bar>quantity oi\<bar> < 2 ^ 53)
        \<and> (\<Sum>oi\<leftarrow>filter (\<lambda>oi. orderId oi = i) (orderItemRows s). \<bar>u oi * quantity oi\<bar>) < 2 ^ 53
      \<longrightarrow> js_sum (map (\<lambda>oi. js_mul (unitPrice oi) (js_of_int (quantity oi)))
             (filter (\<lambda>oi. orderId oi = i) (orderItemRows s)))
          = js_of_int (\<Sum>oi\<leftarrow>filter (\<lambda>oi. orderId oi = i) (orderItemRows s). u oi * quantity oi))"
proof -
  let ?its = "filter (\<lambda>oi. orderId oi = i) (orderItemRows s)"
  have 1: "GET_orders_id i s =
     (\<lparr>status = 200,
       body = Json \<lparr>id = i, owner = order_userId row, items = ?its,
                    total = Some (js_sum (map (\<lambda>oi. js_mul (unitPrice oi) (js_of_int (quantity oi)))
                                    ?its))\<rparr>\<rparr>, s)"
    using assms
    by (simp add: GET_orders_id_def asyncHandler_def get_order_Some flip: order_total_js_sum)
  have 2: "js_sum (map (\<lambda>oi. js_mul (unitPrice oi) (js_of_int (quantity oi))) ?its)
             = js_of_int (\<Sum>oi\<leftarrow>?its. u oi * quantity oi)"
    if "\<forall>oi \<in> set ?its. unitPrice oi = js_of_int (u oi) \<and> \<bar>u oi\<bar> < 2 ^ 53 \<and> \<bar>quantity oi\<bar> < 2 ^ 53"
      and "(\<Sum>oi\<leftarrow>?its. \<bar>u oi * quantity oi\<bar>) < 2 ^ 53"
    using order_total_ints [OF that] by (simp add: order_total_js_sum)
  from 1 2 show ?thesis by blast
qed

theorem order_total_derived_witness:
  "GET_orders_id ''o1'' shop_with_order =
     (\<lparr>status = 200,
       body = Json \<lparr>id = ''o1'', owner = ''u1'',
                    items = [attach ''o1'' (line ''p1'' 10 2), attach ''o1'' (line ''p2'' 5 1)],
                    total = Some (js_of_int 25)\<rparr>\<rparr>, shop_with_order)
   \<and> fst (GET_orders_id ''o2'' shop_with_tenths) =
       \<lparr>status = 200,
        body = Json \<lparr>id = ''o2'', owner = ''u1'',
                     items = [\<lparr>productId = ''p1'', unitPrice = Finite 7205759403792794 (- 56),
                               quantity = 3, orderId = ''o2''\<rparr>],
                     total = Some (Finite 5404319552844596 (- 54))\<rparr>\<rparr>"
proof -
  let ?u = "\<lambda>oi :: orderItem. if productId oi = ''p1'' then 10 else (5::int)"
  let ?its = "[attach ''o1'' (line ''p1'' 10 2), attach ''o1'' (line ''p2'' 5 1)]"
  have h: "orders shop_with_order ''o1'' = Some \<lparr>order_userId = ''u1''\<rparr>"
    by (simp add: shop_with_order_def)
  have i: "filter (\<lambda>oi. orderId oi = ''o1'') (orderItemRows shop_with_order) = ?its"
    by (simp add: shop_with_order_def attach_def)
  have p: "\<forall>oi \<in> set ?its. unitPrice oi = js_of_int (?u oi) \<and> \<bar>?u oi\<bar> < 2 ^ 53 \<and> \<bar>quantity oi\<bar> < 2 ^ 53"
    by (simp add: attach_def line_def)
  have q: "(\<Sum>oi\<leftarrow>?its. \<bar>?u oi * quantity oi\<bar>) < 2 ^ 53"
    by (simp add: attach_def line_def)
  have r: "(\<Sum>oi\<leftarrow>?its. ?u oi * quantity oi) = 25"
    by (simp add: attach_def line_def)
  from order_total_derived [OF h, of ?u] p q
  have "GET_orders_id ''o1'' shop_with_order =
     (\<lparr>status = 200,
       body = Json \<lparr>id = ''o1'', owner = ''u1'', items = ?its,
                    total = Some (js_of_int (\<Sum>oi\<leftarrow>?its. ?u oi * quantity oi))\<rparr>\<rparr>, shop_with_order)"
    unfolding i by simp
  then have a: "GET_orders_id ''o1'' shop_with_order =
     (\<lparr>status = 200,
       body = Json \<lparr>id = ''o1'', owner = ''u1'', items = ?its,
                    total = Some (js_of_int 25)\<rparr>\<rparr>, shop_with_order)"
    unfolding r .
  have b: "fst (GET_orders_id ''o2'' shop_with_tenths) =
       \<lparr>status = 200,
        body = Json \<lparr>id = ''o2'', owner = ''u1'',
                     items = [\<lparr>productId = ''p1'', unitPrice = Finite 7205759403792794 (- 56),
                               quantity = 3, orderId = ''o2''\<rparr>],
                     total = Some (Finite 5404319552844596 (- 54))\<rparr>\<rparr>"
    by code_simp
  from a b show ?thesis by (rule conjI)
qed

text \<open>
  C8. For an identifier with no stored order, \<open>findUniqueOrThrow\<close> raises the record-not-found
  error (P2025), \<open>asyncHandler\<close> answers 404, a client error, and the store is left as it was.
\<close>

theorem fetch_missing_order:
  assumes "orders s i = None"
  shows "get_order i s = (Inl record_not_found, s) \<and>
         GET_orders_id i s = (\<lparr>status = 404, body = StatusText ''Not Found''\<rparr>, s) \<and>
         client_error (fst (GET_orders_id i s))"
  using assms
  by (simp add: GET_orders_id_def asyncHandler_def get_order_None record_not_found_def client_error_def)

theorem fetch_missing_order_witness:
  "orders shop ''o7'' = None \<and>
   GET_orders_id ''o7'' shop = (\<lparr>status = 404, body = StatusText ''Not Found''\<rparr>, shop)"
proof -
  have h: "orders shop ''o7'' = None" by (simp add: shop_def)
  from fetch_missing_order [OF h] h show ?thesis by simp
qed

text \<open>
  C10. The fetch of a product by an identifier with no row answers 200 with an empty body
  (\<open>findUnique\<close> gives \<^verbatim>\<open>null\<close>), where the fetch of a user or of an order by an
  identifier with no row answers 404.
\<close>

theorem missing_product_fetch_is_200:
  assumes "products s i = None" "users s j = None" "orders s k = None"
  shows "GET_products_id i s = (\<lparr>status = 200, body = Empty\<rparr>, s) \<and>
         GET_users_id j s = (\<lparr>status = 404, body = StatusText ''Not Found''\<rparr>, s) \<and>
         GET_orders_id k s = (\<lparr>status = 404, body = StatusText ''Not Found''\<rparr>, s)"
  using assms
  by (simp add: GET_products_id_def GET_users_id_def GET_orders_id_def asyncHandler_def
      get_product_def get_user_def get_order_None findUnique_def findUniqueOrThrow_def send_def
      record_not_found_def)

theorem missing_product_fetch_is_200_witness:
  "products shop ''p9'' = None \<and> users shop ''u9'' = None \<and> orders shop ''o9'' = None \<and>
   GET_products_id ''p9'' shop = (\<lparr>status = 200, body = Empty\<rparr>, shop) \<and>
   GET_users_id ''u9'' shop = (\<lparr>status = 404, body = StatusText ''Not Found''\<rparr>, shop) \<and>
   GET_orders_id ''o9'' shop = (\<lparr>status = 404, body = StatusText ''Not Found''\<rparr>, shop)"
proof -
  have h: "products shop ''p9'' = None" "users shop ''u9'' = None" "orders shop ''o9'' = None"
    by (simp_all add: shop_def)
  from missing_product_fetch_is_200 [OF h] h show ?thesis by simp
qed

section \<open>Placing an order\<close>

text \<open>
  Where the line items name pairwise distinct products, the handler does what a placement
  is to do: with a body that passes validation, products that all exist, each quantity at
  most the stock of its product, an unused generated identifier and a store that raises no
  error of its own, the answer is 201 with the created order and its order items, the
  order row and the item rows are stored, the stock of every product named is its former
  stock minus the quantity asked, and no other product changes.
\<close>

lemma placement_distinct_products:
  assumes "CreateOrder b = None"
    and "distinct (map productId (orderItems b))"
    and "\<forall>oi \<in> set (orderItems b). \<exists>p. products s (productId oi) = Some p \<and> quantity oi \<le> stock p"
    and "orders s uuid = None"
    and "\<forall>k \<le> Suc (length (orderItems b)). fault k = None"
  shows "\<exists>s'. POST_orders CreateOrder uuid fault b s =
           (\<lparr>status = 201, body = Json (OrderResult (created_order uuid b s))\<rparr>, s')
         \<and> orders s' uuid = Some \<lparr>order_userId = userId b\<rparr>
         \<and> orderItemRows s' = orderItemRows s @ map (attach uuid) (orderItems b)
         \<and> (\<forall>oi \<in> set (orderItems b). \<exists>p. products s (productId oi) = Some p
               \<and> products s' (productId oi) = Some (p\<lparr>stock := stock p - quantity oi\<rparr>))
         \<and> (\<forall>i. i \<notin> productId ` set (orderItems b) \<longrightarrow> products s' i = products s i)"
proof -
  have fq: "first_quantity (orderItems b) (productId oi) = quantity oi"
    if "oi \<in> set (orderItems b)" for oi
    using find_first_distinct [OF assms(2) that] by (simp add: first_quantity_def)
  have cnt: "count_list (map productId (orderItems b)) (productId oi) = 1"
    if "oi \<in> set (orderItems b)" for oi
    using count_list_distinct [OF assms(2)] that by simp
  have su: "sufficient b s"
    unfolding sufficient_def using assms(3) fq by fastforce
  have ex: "\<forall>oi \<in> set (orderItems b). products s (productId oi) \<noteq> None"
    using assms(3) by fastforce
  have p: "POST_orders CreateOrder uuid fault b s =
           (\<lparr>status = 201, body = Json (OrderResult (created_order uuid b s))\<rparr>, committed uuid b s)"
    using post_orders_ok [of CreateOrder b s uuid fault] assms(1,4,5) su ex
    by (simp add: POST_orders_Inr)
  have 1: "orders (committed uuid b s) uuid = Some \<lparr>order_userId = userId b\<rparr>"
    by (simp add: committed_def)
  have 2: "orderItemRows (committed uuid b s) = orderItemRows s @ map (attach uuid) (orderItems b)"
    by (simp add: committed_def)
  have 3: "\<forall>oi \<in> set (orderItems b). \<exists>p. products s (productId oi) = Some p
             \<and> products (committed uuid b s) (productId oi) = Some (p\<lparr>stock := stock p - quantity oi\<rparr>)"
  proof
    fix oi assume oi: "oi \<in> set (orderItems b)"
    with assms(3) obtain p where "products s (productId oi) = Some p" by blast
    then show "\<exists>p. products s (productId oi) = Some p
             \<and> products (committed uuid b s) (productId oi) = Some (p\<lparr>stock := stock p - quantity oi\<rparr>)"
      by (simp add: committed_product fq [OF oi] cnt [OF oi])
  qed
  have 4: "\<forall>i. i \<notin> productId ` set (orderItems b) \<longrightarrow> products (committed uuid b s) i = products s i"
  proof (intro allI impI)
    fix i assume "i \<notin> productId ` set (orderItems b)"
    then have "count_list (map productId (orderItems b)) i = 0" by (simp add: count_list_0_iff)
    then show "products (committed uuid b s) i = products s i"
      by (simp add: committed_product option.map_ident)
  qed
  from p 1 2 3 4 show ?thesis by blast
qed

lemma placement_distinct_products_example:
  "\<exists>s'. POST_orders CreateOrder_sample ''o1'' no_fault order_two_products shop =
           (\<lparr>status = 201, body = Json (OrderResult (created_order ''o1'' order_two_products shop))\<rparr>, s')
     \<and> orders s' ''o1'' = Some \<lparr>order_userId = ''u1''\<rparr>
     \<and> products s' ''p1'' = Some \<lparr>price = js_of_int 10, stock = 3\<rparr>
     \<and> products s' ''p2'' = Some \<lparr>price = js_of_int 5, stock = 0\<rparr>"
proof -
  have h1: "CreateOrder_sample order_two_products = None" by code_simp
  have h2: "distinct (map productId (orderItems order_two_products))" by code_simp
  have h3: "\<forall>oi \<in> set (orderItems order_two_products).
              \<exists>p. products shop (productId oi) = Some p \<and> quantity oi \<le> stock p"
    by (simp add: sample_defs)
  have h4: "orders shop ''o1'' = None" by (simp add: shop_def)
  have h5: "\<forall>k \<le> Suc (length (orderItems order_two_products)). no_fault k = None"
    by (simp add: no_fault_def)
  from placement_distinct_products [of CreateOrder_sample order_two_products shop "''o1''" no_fault,
      OF h1 h2 h3 h4 h5]
  obtain s' where p: "POST_orders CreateOrder_sample ''o1'' no_fault order_two_products shop =
           (\<lparr>status = 201, body = Json (OrderResult (created_order ''o1'' order_two_products shop))\<rparr>, s')"
    and o: "orders s' ''o1'' = Some \<lparr>order_userId = userId order_two_products\<rparr>"
    and d: "\<forall>oi \<in> set (orderItems order_two_products). \<exists>p. products shop (productId oi) = Some p
               \<and> products s' (productId oi) = Some (p\<lparr>stock := stock p - quantity oi\<rparr>)"
    by blast
  from d have "products s' ''p1'' = Some \<lparr>price = js_of_int 10, stock = 3\<rparr>"
    and "products s' ''p2'' = Some \<lparr>price = js_of_int 5, stock = 0\<rparr>"
    by (simp_all add: sample_defs)
  with p o show ?thesis by (auto simp: order_two_products_def)
qed

text \<open>
  C1. A placement in which every line item asks at most the stock of its product is to
  succeed and to leave the stock of each product at its former stock minus the quantity
  asked of it. The handler misses this when two line items name one product: it issues one
  decrement for every line item, each of the quantity of the first. With a stock of 5 and
  line items asking 2 and 3 of the same product, the placement is answered 201, the items
  stored ask 2 and 3, and the stock left is 1: neither 5 - 2, nor 5 - 3, nor 5 - (2 + 3).
\<close>

theorem repeated_product_wrong_stock:
  "status (fst (POST_orders CreateOrder_sample ''o1'' no_fault order_same_product_twice shop)) = 201
   \<and> map quantity
        (orderItemRows (snd (POST_orders CreateOrder_sample ''o1'' no_fault order_same_product_twice shop)))
       = [2, 3]
   \<and> map_option stock (products shop ''p1'') = Some 5
   \<and> map_option stock
        (products (snd (POST_orders CreateOrder_sample ''o1'' no_fault order_same_product_twice shop)) ''p1'')
       = Some 1
   \<and> (1::int) \<noteq> 5 - 2 \<and> (1::int) \<noteq> 5 - 3 \<and> (1::int) \<noteq> 5 - (2 + 3)"
  by code_simp

text \<open>
  C2, as amended. When the body passes validation and some product that is found has less
  stock than the first line item naming it asks for, the placement fails with the plain
  error of message \<^verbatim>\<open>Insufficient Stock\<close>, which \<open>asyncHandler\<close> answers as status 500 with
  that message alone; the store is left as it was: no stock changes, no order row appears.
\<close>

theorem insufficient_stock_rejected:
  assumes "CreateOrder b = None"
    and "find (\<lambda>x. productId x = productId oi) (orderItems b) = Some oi"
    and "products s (productId oi) = Some p"
    and "stock p < quantity oi"
  shows "POST_orders CreateOrder uuid fault b s
           = (\<lparr>status = 500, body = Message ''Insufficient Stock''\<rparr>, s)
         \<and> server_error (fst (POST_orders CreateOrder uuid fault b s))"
proof -
  from assms(2) have oi: "oi \<in> set (orderItems b)"
    by (auto simp: find_Some_iff in_set_conv_nth)
  have "first_quantity (orderItems b) (productId oi) = quantity oi"
    using assms(2) by (simp add: first_quantity_def)
  with oi assms(3,4) have "\<not> sufficient b s"
    unfolding sufficient_def by force
  then have "post_orders CreateOrder uuid fault b s = (Inl (Error ''Insufficient Stock''), s)"
    using assms(1) by (simp add: post_orders_eq)
  then show ?thesis
    by (simp add: POST_orders_def asyncHandler_def server_error_def)
qed

theorem insufficient_stock_rejected_witness:
  "POST_orders CreateOrder_sample ''o1'' no_fault order_too_many shop
     = (\<lparr>status = 500, body = Message ''Insufficient Stock''\<rparr>, shop)"
proof -
  have h1: "CreateOrder_sample order_too_many = None" by code_simp
  have h2: "find (\<lambda>x. productId x = productId (line ''p2'' 5 3)) (orderItems order_too_many)
              = Some (line ''p2'' 5 3)"
    by (simp add: sample_defs)
  have h3: "products shop (productId (line ''p2'' 5 3)) = Some \<lparr>price = js_of_int 5, stock = 1\<rparr>"
    by (simp add: sample_defs)
  have h4: "stock \<lparr>price = js_of_int 5, stock = 1\<rparr> < quantity (line ''p2'' 5 3)"
    by (simp add: sample_defs)
  from insufficient_stock_rejected
      [where CreateOrder = CreateOrder_sample and b = order_too_many and uuid = "''o1''"
         and fault = no_fault, OF h1 h2 h3 h4]
  show ?thesis by simp
qed

text \<open>
  The claim as stated fails: a line item asking 3 of a product with a stock of 1 is
  answered 500, which is not a client error, with a message that names no product; and a
  request whose second line item for a product asks 100 of a stock of 5, the first asking 1,
  is placed.
\<close>

theorem insufficient_stock_rejected_counterexample:
  "fst (POST_orders CreateOrder_sample ''o1'' no_fault order_too_many shop)
     = \<lparr>status = 500, body = Message ''Insufficient Stock''\<rparr>
   \<and> \<not> client_error (fst (POST_orders CreateOrder_sample ''o1'' no_fault order_too_many shop))
   \<and> map_option stock (products shop ''p1'') = Some 5
   \<and> status (fst (POST_orders CreateOrder_sample ''o1'' no_fault order_first_small shop)) = 201
   \<and> map_option stock
        (products (snd (POST_orders CreateOrder_sample ''o1'' no_fault order_first_small shop)) ''p1'')
       = Some 3"
  by code_simp

text \<open>
  C3. The insert of the order with its items and all the stock decrements go to the store in
  one transaction, and nothing else of the handler writes. So, whatever the store raises and
  wherever it raises it, a placement ends in one of two ways: answered 201 with the store
  holding the order row, the item rows and every decrement (and then no statement failed),
  or answered with an error status with the store exactly as it was.
\<close>

theorem placement_all_or_nothing:
  "(POST_orders CreateOrder uuid fault b s =
      (\<lparr>status = 201, body = Json (OrderResult (created_order uuid b s))\<rparr>, committed uuid b s)
    \<and> orders (committed uuid b s) uuid = Some \<lparr>order_userId = userId b\<rparr>
    \<and> orderItemRows (committed uuid b s) = orderItemRows s @ map (attach uuid) (orderItems b)
    \<and> products (committed uuid b s)
          = decrement_all (first_quantity (orderItems b)) (map productId (orderItems b)) (products s)
    \<and> (\<forall>k \<le> Suc (length (orderItems b)). fault k = None))
   \<or> (snd (POST_orders CreateOrder uuid fault b s) = s
      \<and> status (fst (POST_orders CreateOrder uuid fault b s)) \<in> {400, 404, 500})"
proof (cases "post_orders CreateOrder uuid fault b s")
  case (Pair r s')
  show ?thesis
  proof (cases r)
    case (Inl e)
    with Pair have "POST_orders CreateOrder uuid fault b s = (catch_response e, s)"
      by (simp add: POST_orders_Inl)
    then show ?thesis using status_catch_response [of e] by auto
  next
    case (Inr res)
    with Pair have q: "post_orders CreateOrder uuid fault b s = (Inr res, s')" by simp
    from post_orders_Inr [OF q] POST_orders_Inr [OF q] show ?thesis
      by (simp add: committed_def)
  qed
qed

theorem placement_all_or_nothing_witness:
  "snd (POST_orders CreateOrder_sample ''o1'' fault_after_insert order_two_products shop) = shop
   \<and> fst (POST_orders CreateOrder_sample ''o1'' fault_after_insert order_two_products shop)
       = \<lparr>status = 500, body = Message ''storage fault''\<rparr>"
proof -
  have "\<not> (\<forall>k \<le> Suc (length (orderItems order_two_products)). fault_after_insert k = None)"
    by (auto simp: fault_after_insert_def order_two_products_def intro!: exI [of _ 1])
  with placement_all_or_nothing [of CreateOrder_sample "''o1''" fault_after_insert order_two_products shop]
  have "snd (POST_orders CreateOrder_sample ''o1'' fault_after_insert order_two_products shop) = shop"
    by blast
  moreover have "fst (POST_orders CreateOrder_sample ''o1'' fault_after_insert order_two_products shop)
       = \<lparr>status = 500, body = Message ''storage fault''\<rparr>"
    by code_simp
  ultimately show ?thesis by simp
qed

text \<open>
  C5, as amended. A request that names a product with no row is never placed and never
  changes the store: the answer is one of 400, 404 and 500. It is the 404 of a record
  not found, raised inside the transaction by the stock update of the missing product, when
  the body passes validation, the products that are found pass the admission check, the
  generated identifier is unused and the store raises no error of its own.
\<close>

theorem missing_product_rejected:
  assumes "oi \<in> set (orderItems b)" and "products s (productId oi) = None"
  shows "snd (POST_orders CreateOrder uuid fault b s) = s
         \<and> status (fst (POST_orders CreateOrder uuid fault b s)) \<in> {400, 404, 500}
         \<and> (CreateOrder b = None \<and> sufficient b s \<and> orders s uuid = None
              \<and> (\<forall>k \<le> Suc (length (orderItems b)). fault k = None)
            \<longrightarrow> POST_orders CreateOrder uuid fault b s
                  = (\<lparr>status = 404, body = StatusText ''Not Found''\<rparr>, s))"
proof -
  obtain r s' where q: "post_orders CreateOrder uuid fault b s = (r, s')"
    by (cases "post_orders CreateOrder uuid fault b s")
  have "\<exists>e. r = Inl e"
  proof (cases r)
    case (Inr res)
    with q post_orders_Inr [of CreateOrder uuid fault b s res s'] assms show ?thesis by blast
  qed simp
  then obtain e where e: "r = Inl e" ..
  with q have p: "POST_orders CreateOrder uuid fault b s = (catch_response e, s)"
    by (simp add: POST_orders_Inl)
  have 1: "snd (POST_orders CreateOrder uuid fault b s) = s" using p by simp
  have 2: "status (fst (POST_orders CreateOrder uuid fault b s)) \<in> {400, 404, 500}"
    using p status_catch_response [of e] by simp
  have 3: "POST_orders CreateOrder uuid fault b s
             = (\<lparr>status = 404, body = StatusText ''Not Found''\<rparr>, s)"
    if "CreateOrder b = None" "sufficient b s" "orders s uuid = None"
      "\<forall>k \<le> Suc (length (orderItems b)). fault k = None"
  proof -
    from transaction_placement_missing [OF assms that(3,4)] that(1,2)
    have "post_orders CreateOrder uuid fault b s = (Inl record_not_found, s)"
      by (simp add: post_orders_eq)
    then show ?thesis
      by (simp add: POST_orders_def asyncHandler_def record_not_found_def)
  qed
  from 1 2 3 show ?thesis by blast
qed

theorem missing_product_rejected_witness:
  "POST_orders CreateOrder_sample ''o1'' no_fault order_missing_product shop
     = (\<lparr>status = 404, body = StatusText ''Not Found''\<rparr>, shop)"
proof -
  have h1: "line ''p9'' 1 1 \<in> set (orderItems order_missing_product)"
    by (simp add: order_missing_product_def)
  have h2: "products shop (productId (line ''p9'' 1 1)) = None"
    by (simp add: sample_defs)
  have g1: "CreateOrder_sample order_missing_product = None" by code_simp
  have g2: "sufficient order_missing_product shop"
    by (simp add: sufficient_def first_quantity_def sample_defs)
  have g3: "orders shop ''o1'' = None" by (simp add: shop_def)
  have g4: "\<forall>k \<le> Suc (length (orderItems order_missing_product)). no_fault k = None"
    by (simp add: no_fault_def)
  from missing_product_rejected [OF h1 h2, of CreateOrder_sample "''o1''" no_fault] g1 g2 g3 g4
  show ?thesis by blast
qed

text \<open>
  The claim as stated fails: a request naming a missing product next to a product of which
  it asks more than the stock is answered 500 with \<^verbatim>\<open>Insufficient Stock\<close>, the admission
  check coming before any statement that could miss the product.
\<close>

theorem missing_product_rejected_counterexample:
  "products shop ''p9'' = None
   \<and> fst (POST_orders CreateOrder_sample ''o1'' no_fault order_missing_and_short shop)
       = \<lparr>status = 500, body = Message ''Insufficient Stock''\<rparr>
   \<and> \<not> client_error (fst (POST_orders CreateOrder_sample ''o1'' no_fault order_missing_and_short shop))"
  by code_simp

text \<open>
  C9. The admission check compares the stock of every product found with the quantity of
  the first line item naming it, and a placement that succeeds has decremented the stock of
  every product named by that quantity once for every line item naming it: the stock falls
  by the first quantity times the number of occurrences.
\<close>

theorem repeated_product_first_quantity:
  assumes "post_orders CreateOrder uuid fault b s = (Inr res, s')"
    and "pid \<in> productId ` set (orderItems b)"
  shows "isSufficientStock (orderItems b) (product_findMany (map productId (orderItems b)) s)
           = Inr (sufficient b s)
         \<and> (\<exists>first p. find (\<lambda>oi. productId oi = pid) (orderItems b) = Some first
               \<and> getQuantity (orderItems b) pid = Inr (quantity first)
               \<and> products s pid = Some p \<and> quantity first \<le> stock p
               \<and> products s' pid =
                   Some (p\<lparr>stock := stock p
                             - quantity first * int (count_list (map productId (orderItems b)) pid)\<rparr>))"
proof -
  note r = post_orders_Inr [OF assms(1)]
  from assms(2) obtain oi where oi: "oi \<in> set (orderItems b)" "productId oi = pid" by auto
  then obtain first where first: "find (\<lambda>oi. productId oi = pid) (orderItems b) = Some first"
    by (cases "find (\<lambda>oi. productId oi = pid) (orderItems b)") (auto simp: find_None_iff)
  then have fq: "first_quantity (orderItems b) pid = quantity first"
    by (simp add: first_quantity_def)
  from first have g: "getQuantity (orderItems b) pid = Inr (quantity first)"
    by (simp add: getQuantity_def)
  from r oi obtain p where p: "products s pid = Some p" by auto
  from r have "sufficient b s" by blast
  with oi p fq have le: "quantity first \<le> stock p"
    unfolding sufficient_def by auto
  from r have "s' = committed uuid b s" by blast
  with p fq have d: "products s' pid =
      Some (p\<lparr>stock := stock p - quantity first * int (count_list (map productId (orderItems b)) pid)\<rparr>)"
    by (simp add: committed_product)
  from first g p le d isSufficientStock_findMany [of b s] show ?thesis by blast
qed

theorem repeated_product_first_quantity_witness:
  "getQuantity (orderItems order_same_product_twice) ''p1'' = Inr 2
   \<and> count_list (map productId (orderItems order_same_product_twice)) ''p1'' = 2
   \<and> products shop ''p1'' = Some \<lparr>price = js_of_int 10, stock = 5\<rparr>
   \<and> products (snd (post_orders CreateOrder_sample ''o1'' no_fault order_same_product_twice shop)) ''p1''
       = Some \<lparr>price = js_of_int 10, stock = 1\<rparr>"
proof -
  have h1: "CreateOrder_sample order_same_product_twice = None" by code_simp
  have h2: "sufficient order_same_product_twice shop"
    by (simp add: sufficient_def first_quantity_def sample_defs)
  have h3: "orders shop ''o1'' = None" by (simp add: shop_def)
  have h4: "\<forall>oi \<in> set (orderItems order_same_product_twice). products shop (productId oi) \<noteq> None"
    by (simp add: sample_defs)
  have h5: "\<forall>k \<le> Suc (length (orderItems order_same_product_twice)). no_fault k = None"
    by (simp add: no_fault_def)
  let ?s' = "committed ''o1'' order_same_product_twice shop"
  from post_orders_ok [of CreateOrder_sample order_same_product_twice shop "''o1''" no_fault]
    h1 h2 h3 h4 h5
  have p: "post_orders CreateOrder_sample ''o1'' no_fault order_same_product_twice shop
             = (Inr \<lparr>status = 201,
                     body = Json (OrderResult (created_order ''o1'' order_same_product_twice shop))\<rparr>, ?s')"
    by simp
  have h6: "''p1'' \<in> productId ` set (orderItems order_same_product_twice)"
    by (simp add: sample_defs)
  have c: "count_list (map productId (orderItems order_same_product_twice)) ''p1'' = 2"
    by code_simp
  have s: "products shop ''p1'' = Some \<lparr>price = js_of_int 10, stock = 5\<rparr>" by (simp add: shop_def)
  from repeated_product_first_quantity [OF p h6]
  obtain first pr where
    f: "find (\<lambda>oi. productId oi = ''p1'') (orderItems order_same_product_twice) = Some first"
    and g: "getQuantity (orderItems order_same_product_twice) ''p1'' = Inr (quantity first)"
    and pr: "products shop ''p1'' = Some pr"
    and d: "products ?s' ''p1'' = Some (pr\<lparr>stock := stock pr - quantity first
              * int (count_list (map productId (orderItems order_same_product_twice)) ''p1'')\<rparr>)"
    by blast
  from f have q: "quantity first = 2" by (auto simp: sample_defs)
  from pr s have "pr = \<lparr>price = js_of_int 10, stock = 5\<rparr>" by simp
  with d q c have "products ?s' ''p1'' = Some \<lparr>price = js_of_int 10, stock = 1\<rparr>" by simp
  with g q c s p show ?thesis by simp
qed

section \<open>Unit prices\<close>

text \<open>
  C7, as amended. The unit price of an order item is the one the request gives for the line
  item: the order fetched after its placement carries the request's unit prices and the total
  that they give in the arithmetic of numbers. A later \<^verbatim>\<open>PATCH /products/:id\<close> leaves
  every order, its items and its total as they were, on any store and for any order.
\<close>

theorem unit_price_snapshot:
  assumes "post_orders CreateOrder uuid fault b s = (Inr res, s')"
    and "\<forall>oi \<in> set (orderItemRows s). orderId oi \<noteq> uuid"
  shows "fst (GET_orders_id uuid s') =
           \<lparr>status = 200,
            body = Json \<lparr>id = uuid, owner = userId b, items = map (attach uuid) (orderItems b),
                         total = Some (js_sum (map (\<lambda>oi. js_mul (unitPrice oi) (js_of_int (quantity oi)))
                                         (orderItems b)))\<rparr>\<rparr>
         \<and> map unitPrice (map (attach uuid) (orderItems b)) = map unitPrice (orderItems b)
         \<and> fst (GET_orders_id i (snd (PATCH_products_id PatchProduct r t))) = fst (GET_orders_id i t)"
proof -
  from post_orders_Inr [OF assms(1)] have s': "s' = committed uuid b s" by blast
  have o: "orders s' uuid = Some \<lparr>order_userId = userId b\<rparr>"
    by (simp add: s' committed_def)
  have "filter (\<lambda>oi. orderId oi = uuid) (orderItemRows s) = []"
    using assms(2) by (simp add: filter_empty_conv)
  moreover have "filter (\<lambda>oi. orderId oi = uuid) (map (attach uuid) (orderItems b))
                   = map (attach uuid) (orderItems b)"
    by (simp add: filter_id_conv attach_simps)
  ultimately have f: "filter (\<lambda>oi. orderId oi = uuid) (orderItemRows s')
                        = map (attach uuid) (orderItems b)"
    by (simp add: s' committed_def)
  have t: "order_total (map (attach uuid) (orderItems b))
             = js_sum (map (\<lambda>oi. js_mul (unitPrice oi) (js_of_int (quantity oi))) (orderItems b))"
    by (simp add: order_total_js_sum comp_def attach_simps)
  have 1: "fst (GET_orders_id uuid s') =
           \<lparr>status = 200,
            body = Json \<lparr>id = uuid, owner = userId b, items = map (attach uuid) (orderItems b),
                         total = Some (js_sum (map (\<lambda>oi. js_mul (unitPrice oi) (js_of_int (quantity oi)))
                                         (orderItems b)))\<rparr>\<rparr>"
    by (simp add: GET_orders_id_def asyncHandler_def get_order_Some [OF o] f t)
  have 2: "map unitPrice (map (attach uuid) (orderItems b)) = map unitPrice (orderItems b)"
    by (simp add: comp_def attach_simps)
  have 3: "fst (GET_orders_id i (snd (PATCH_products_id PatchProduct r t))) = fst (GET_orders_id i t)"
    using patch_product_frame [of PatchProduct r t] by (intro GET_orders_id_cong) simp_all
  from 1 2 3 show ?thesis by blast
qed

theorem unit_price_snapshot_witness:
  "fst (GET_orders_id ''o1'' (snd (PATCH_products_id PatchProduct_sample (''p1'', price_to_99)
          (snd (POST_orders CreateOrder_sample ''o1'' no_fault order_two_products shop)))))
     = \<lparr>status = 200,
        body = Json \<lparr>id = ''o1'', owner = ''u1'',
                     items = [attach ''o1'' (line ''p1'' 10 2), attach ''o1'' (line ''p2'' 5 1)],
                     total = Some (js_of_int 25)\<rparr>\<rparr>
   \<and> map_option price (products (snd (PATCH_products_id PatchProduct_sample (''p1'', price_to_99)
          (snd (POST_orders CreateOrder_sample ''o1'' no_fault order_two_products shop)))) ''p1'')
       = Some (js_of_int 99)"
proof -
  have h1: "CreateOrder_sample order_two_products = None" by code_simp
  have h2: "sufficient order_two_products shop"
    by (simp add: sufficient_def first_quantity_def sample_defs)
  have h3: "orders shop ''o1'' = None" by (simp add: shop_def)
  have h4: "\<forall>oi \<in> set (orderItems order_two_products). products shop (productId oi) \<noteq> None"
    by (simp add: sample_defs)
  have h5: "\<forall>k \<le> Suc (length (orderItems order_two_products)). no_fault k = None"
    by (simp add: no_fault_def)
  let ?s' = "committed ''o1'' order_two_products shop"
  from post_orders_ok [of CreateOrder_sample order_two_products shop "''o1''" no_fault] h1 h2 h3 h4 h5
  have p: "post_orders CreateOrder_sample ''o1'' no_fault order_two_products shop
             = (Inr \<lparr>status = 201, body = Json (OrderResult (created_order ''o1'' order_two_products shop))\<rparr>, ?s')"
    by simp
  then have q: "snd (POST_orders CreateOrder_sample ''o1'' no_fault order_two_products shop) = ?s'"
    by (simp add: POST_orders_Inr)
  have h6: "\<forall>oi \<in> set (orderItemRows shop). orderId oi \<noteq> ''o1''" by (simp add: shop_def)
  from unit_price_snapshot [OF p h6, of "''o1''" PatchProduct_sample "(''p1'', price_to_99)" ?s']
  have "fst (GET_orders_id ''o1'' (snd (PATCH_products_id PatchProduct_sample (''p1'', price_to_99) ?s')))
     = \<lparr>status = 200,
        body = Json \<lparr>id = ''o1'', owner = userId order_two_products,
                     items = map (attach ''o1'') (orderItems order_two_products),
                     total = Some (js_sum (map (\<lambda>oi. js_mul (unitPrice oi) (js_of_int (quantity oi)))
                                     (orderItems order_two_products)))\<rparr>\<rparr>"
    by simp
  moreover have "js_sum (map (\<lambda>oi. js_mul (unitPrice oi) (js_of_int (quantity oi)))
                   (orderItems order_two_products)) = js_of_int 25"
    by code_simp
  ultimately
  have a: "fst (GET_orders_id ''o1'' (snd (PATCH_products_id PatchProduct_sample (''p1'', price_to_99) ?s')))
     = \<lparr>status = 200,
        body = Json \<lparr>id = ''o1'', owner = ''u1'',
                     items = [attach ''o1'' (line ''p1'' 10 2), attach ''o1'' (line ''p2'' 5 1)],
                     total = Some (js_of_int 25)\<rparr>\<rparr>"
    by (simp add: order_two_products_def)
  have v: "PatchProduct_sample price_to_99 = None" by code_simp
  have pp: "products ?s' ''p1'' = Some \<lparr>price = js_of_int 10, stock = 3\<rparr>"
    by (simp add: committed_product first_quantity_def sample_defs)
  from patched_product [of PatchProduct_sample price_to_99 ?s' "''p1''"] v pp
  have b: "map_option price (products (snd (PATCH_products_id PatchProduct_sample (''p1'', price_to_99) ?s')) ''p1'')
       = Some (js_of_int 99)"
    by (simp add: price_to_99_def apply_patch_def)
  from a b show ?thesis by (simp add: q)
qed

text \<open>
  The claim as stated fails where it says that the unit price is taken from the product: a
  line item sent with unit price 7 for a product priced 10 is stored with unit price 7, and
  the total of the order of two of it is 14.
\<close>

theorem unit_price_snapshot_counterexample:
  "map_option price (products shop ''p1'') = Some (js_of_int 10)
   \<and> fst (GET_orders_id ''o1''
            (snd (POST_orders CreateOrder_sample ''o1'' no_fault order_own_price shop)))
       = \<lparr>status = 200,
          body = Json \<lparr>id = ''o1'', owner = ''u1'',
                       items = [\<lparr>productId = ''p1'', unitPrice = js_of_int 7, quantity = 2,
                                 orderId = ''o1''\<rparr>],
                       total = Some (js_of_int 14)\<rparr>\<rparr>"
  by code_simp

section \<open>Concurrent placements\<close>

text \<open>
  C4. The decrement of \<^verbatim>\<open>POST /orders\<close> carries no condition on the stock. With a stock of 5
  and two concurrent requests of 3 each, both handlers read 5, both pass the admission
  check, both transactions commit: both are answered 201 and the stock is - 1. A single
  request naming the product in two line items of 3 does the same.
\<close>

theorem concurrent_placements_oversell:
  "(case POST_orders_concurrently CreateOrder_sample no_fault (''o1'', order_of_3) (''o2'', order_of_3) shop of
      (res_a, res_b, s) \<Rightarrow> (status res_a, status res_b, map_option stock (products s ''p1'')))
     = (201, 201, Some (- 1))
   \<and> map_option stock (products shop ''p1'') = Some 5
   \<and> (case POST_orders CreateOrder_sample ''o1'' no_fault order_3_twice shop of
        (res, s) \<Rightarrow> (status res, map_option stock (products s ''p1'')))
     = (201, Some (- 1))"
  by code_simp

end
